theory Spec2Isabelle
  imports Complex_Main
begin

section \<open>Layer model\<close>

text \<open>
  The composer keeps video and text layers on a canvas
  (\<^verbatim>\<open>src/components/video-template-composer.tsx\<close>). A JavaScript \<^verbatim>\<open>number\<close> is
  modelled as the \<^typ>\<open>real\<close> it denotes: there is no NaN and no infinity, and
  \<^verbatim>\<open>Math.round\<close> is \<^term>\<open>round\<close> (\<open>\<lfloor>v + 1/2\<rfloor>\<close>, ties upwards, as in JavaScript).
  The arithmetic of the snap utility, of the pointer-down and pointer-move handlers and
  of the position of a duplicate is rounded as the arithmetic of doubles is (section
  \<open>Double-precision arithmetic\<close>). The sums that hit testing and the resize handles compare
  with, the measured box of a text layer, the small whole numbers that place a new layer
  and the derived dimension of the update operation are taken exactly.
  A division by zero gives Infinity or NaN in JavaScript and lies outside the model:
  a theorem whose conclusion rests on a quotient assumes the divisor is a finite number
  other than zero.
  A \<^verbatim>\<open>zIndex\<close> only ever holds \<open>max + 1\<close> of integers or a swapped value, so it
  is an \<^typ>\<open>int\<close>. Strings are \<^typ>\<open>string\<close>.

  \<^verbatim>\<open>VideoLayer\<close> and \<^verbatim>\<open>TextLayer\<close> extend \<^verbatim>\<open>BaseLayer\<close>; the tag \<^verbatim>\<open>type\<close> is the
  constructor of \<open>variant\<close>. Field \<^verbatim>\<open>id\<close> is \<open>lid\<close>, \<^verbatim>\<open>x\<close>/\<^verbatim>\<open>y\<close> are
  \<open>posx\<close>/\<open>posy\<close>, and a text layer's \<^verbatim>\<open>text\<close> is \<open>textContent\<close>.
\<close>

record video_fields =
  width :: real
  height :: real
  aspectLocked :: bool
  aspectRatio :: real

record text_fields =
  textContent :: string
  fontSize :: real
  fontFamily :: string
  color :: string
  bold :: bool
  italic :: bool

datatype variant = Video video_fields | Text text_fields

record layer =
  lid :: string
  name :: string
  posx :: real
  posy :: real
  visible :: bool
  zIndex :: int
  variant :: variant

record CanvasSize =
  canvasWidth :: real
  canvasHeight :: real

datatype ResizeHandle = NW | N | NE | E | SE | S | SW | W

record point =
  ptx :: real
  pty :: real

record rect =
  rx :: real
  ry :: real
  rw :: real
  rh :: real

text \<open>
  The state of the component (its \<^verbatim>\<open>useState\<close> cells that the geometry engine, the
  z-order manager and the compiler read or write). \<^verbatim>\<open>string | null\<close> is a
  \<^typ>\<open>string option\<close>; JavaScript's truthiness test on it is \<open>truthy\<close> (null and
  the empty string are falsy).
\<close>

record composer =
  templateImage :: "string option"
  canvasSize :: CanvasSize
  layers :: "layer list"
  selectedLayer :: "string option"
  draggingLayer :: "string option"
  resizingLayer :: "string option"
  resizeHandle :: "ResizeHandle option"
  dragStart :: point
  layerStart :: rect
  ffmpegCommand :: string
  snapToGrid :: bool
  gridSize :: real

definition truthy :: "string option \<Rightarrow> bool" where
  "truthy s = (case s of None \<Rightarrow> False | Some v \<Rightarrow> v \<noteq> [])"

definition HANDLE_SIZE :: real where
  "HANDLE_SIZE = 10"

definition MIN_SIZE :: real where
  "MIN_SIZE = 50"

section \<open>Double-precision arithmetic\<close>

text \<open>
  A double has a sign, a significand of 53 bits and a binary exponent. The result of
  \<^verbatim>\<open>+\<close>, \<^verbatim>\<open>-\<close>, \<^verbatim>\<open>*\<close> and \<^verbatim>\<open>/\<close> on doubles is the exact result rounded to the nearest
  double, a tie going to the even significand (IEEE 754, round to nearest even).

  \<open>expo x\<close> is the binary exponent \<open>e\<close> of a positive \<open>x\<close>, with
  \<open>2 powi e \<le> x < 2 powi (e + 1)\<close>. The doubles of that range are the multiples of
  \<open>2 powi (e - 52)\<close>; \<open>roundEven\<close> rounds to the nearest integer, a tie to the even one;
  \<open>fl x\<close> is the double nearest to \<open>x\<close>. The exponent is not bounded: there is no
  overflow to Infinity and there are no subnormal numbers, so \<open>fl\<close> is the rounding of
  doubles for magnitudes from \<open>2 powi (- 1022)\<close> up to \<open>2 powi 1024\<close>. \<^verbatim>\<open>Math.max\<close>, \<^verbatim>\<open>Math.min\<close>, \<^verbatim>\<open>Math.round\<close> and the comparisons
  are exact on doubles.
\<close>

function expo :: "real \<Rightarrow> int" where
  "expo x = (if 2 \<le> x then expo (x / 2) + 1
             else if 0 < x \<and> x < 1 then expo (2 * x) - 1
             else 0)"
  by pat_completeness auto

termination
proof (relation "measure (\<lambda>x. nat \<lceil>x\<rceil> + 2 * nat \<lceil>1 / x\<rceil>)")
  show "wf (measure (\<lambda>x. nat \<lceil>x\<rceil> + 2 * nat \<lceil>1 / x\<rceil>))" by simp
next
  fix x :: real assume x: "2 \<le> x"
  then have "x / 2 \<le> x - 1" by simp
  then have "\<lceil>x / 2\<rceil> \<le> \<lceil>x - 1\<rceil>" by (rule ceiling_mono)
  then have a: "\<lceil>x / 2\<rceil> < \<lceil>x\<rceil>" by simp
  have "0 < 1 / x" "1 / x \<le> 1" "0 < 2 / x" "2 / x \<le> 1" using x by simp_all
  then have b: "\<lceil>1 / x\<rceil> = 1" "\<lceil>2 / x\<rceil> = 1"
    by (simp_all add: ceiling_eq_iff)
  have "0 < \<lceil>x\<rceil>" using x by linarith
  then show "(x / 2, x) \<in> measure (\<lambda>x. nat \<lceil>x\<rceil> + 2 * nat \<lceil>1 / x\<rceil>)"
    using a b by simp
next
  fix x :: real assume "\<not> 2 \<le> x" and x: "0 < x \<and> x < 1"
  then have y: "1 < 1 / x" by simp
  then have y2: "2 \<le> \<lceil>1 / x\<rceil>" by linarith
  have a: "\<lceil>1 / x / 2\<rceil> < \<lceil>1 / x\<rceil>"
  proof (cases "2 \<le> 1 / x")
    case True
    then have "1 / x / 2 \<le> 1 / x - 1" by simp
    then have "\<lceil>1 / x / 2\<rceil> \<le> \<lceil>1 / x - 1\<rceil>" by (rule ceiling_mono)
    then show ?thesis by simp
  next
    case False
    then have "1 / x / 2 \<le> 1" by simp
    then have "\<lceil>1 / x / 2\<rceil> \<le> 1" by (simp add: ceiling_le_iff)
    with y2 show ?thesis by linarith
  qed
  have c: "\<lceil>x\<rceil> = 1" using x by (simp add: ceiling_eq_iff)
  have d: "\<lceil>2 * x\<rceil> \<le> 2" using x by (simp add: ceiling_le_iff)
  have e: "0 < \<lceil>1 / x\<rceil>" using y by linarith
  have f: "1 / (2 * x) = 1 / x / 2" by simp
  show "(2 * x, x) \<in> measure (\<lambda>x. nat \<lceil>x\<rceil> + 2 * nat \<lceil>1 / x\<rceil>)"
    using a c d e unfolding in_measure f by linarith
qed

declare expo.simps [simp del]

definition roundEven :: "real \<Rightarrow> int" where
  "roundEven x =
     (let f = \<lfloor>x\<rfloor>; d = x - of_int f in
      if d < 1 / 2 then f else if 1 / 2 < d then f + 1 else if even f then f else f + 1)"

definition fl :: "real \<Rightarrow> real" where
  "fl x =
     (if x = 0 then 0
      else (let p = 2 powi (expo \<bar>x\<bar> - 52) in of_int (roundEven (x / p)) * p))"

section \<open>Snap utility\<close>

text \<open>
  \<^verbatim>\<open>snapValue\<close>: \<^verbatim>\<open>if (!snapToGrid) return value;
  return Math.round(value / gridSize) * gridSize\<close>. The quotient and the product are
  rounded.
\<close>

definition snapValue :: "composer \<Rightarrow> real \<Rightarrow> real" where
  "snapValue st v =
     (if \<not> snapToGrid st then v
      else fl (of_int (round (fl (v / gridSize st))) * gridSize st))"

section \<open>Runtime services\<close>

text \<open>
  What the component asks of the browser: the conversion of a number to text in a
  template literal (\<open>numberToString\<close>, used where the source prints a number it has
  not rounded) and the 2d context's \<^verbatim>\<open>measureText(text).width\<close> under a font
  (\<open>measureWidth\<close>; \<open>None\<close> when the canvas or its context is missing). Integers
  (loop indices, \<^verbatim>\<open>Date.now()\<close>, results of \<^verbatim>\<open>Math.round\<close>) print in decimal:
  \<open>show_nat\<close>, \<open>show_int\<close>.
\<close>

record runtime =
  numberToString :: "real \<Rightarrow> string"
  measureWidth :: "(string \<Rightarrow> string \<Rightarrow> real) option"

definition digit :: "nat \<Rightarrow> char" where
  "digit d = ''0123456789'' ! d"

fun show_nat :: "nat \<Rightarrow> string" where
  "show_nat k = (if k < 10 then [digit k] else show_nat (k div 10) @ [digit (k mod 10)])"

declare show_nat.simps [simp del]

definition show_int :: "int \<Rightarrow> string" where
  "show_int i = (if i < 0 then CHR ''-'' # show_nat (nat (- i)) else show_nat (nat i))"

definition initialComposer :: composer where
  "initialComposer =
     \<lparr>templateImage = None,
      canvasSize = \<lparr>canvasWidth = 504, canvasHeight = 846\<rparr>,
      layers = [],
      selectedLayer = None,
      draggingLayer = None,
      resizingLayer = None,
      resizeHandle = None,
      dragStart = \<lparr>ptx = 0, pty = 0\<rparr>,
      layerStart = \<lparr>rx = 0, ry = 0, rw = 0, rh = 0\<rparr>,
      ffmpegCommand = [],
      snapToGrid = False,
      gridSize = 20\<rparr>"

section \<open>Geometry engine\<close>

text \<open>
  \<^verbatim>\<open>measureText\<close> returns \<^verbatim>\<open>{ width: 100, height: 50 }\<close> without a canvas context,
  otherwise the measured width of \<^verbatim>\<open>text || 'Text'\<close> plus 20 and \<^verbatim>\<open>fontSize * 1.4\<close>.
  The result is the pair (width, height).
\<close>

definition fontStyle :: "runtime \<Rightarrow> text_fields \<Rightarrow> string" where
  "fontStyle rt t =
     (if italic t then ''italic '' else []) @ (if bold t then ''bold '' else [])
     @ numberToString rt (fontSize t) @ ''px '' @ fontFamily t"

definition measureText :: "runtime \<Rightarrow> text_fields \<Rightarrow> real \<times> real" where
  "measureText rt t =
     (case measureWidth rt of
        None \<Rightarrow> (100, 50)
      | Some metrics \<Rightarrow>
          (metrics (fontStyle rt t) (if textContent t = [] then ''Text'' else textContent t) + 20,
           fontSize t * 1.4))"

definition getResizeHandles :: "layer \<Rightarrow> video_fields \<Rightarrow> (ResizeHandle \<times> real \<times> real) list" where
  "getResizeHandles l v =
     (let halfHandle = HANDLE_SIZE / 2 in
      [(NW, posx l - halfHandle, posy l - halfHandle),
       (N, posx l + width v / 2 - halfHandle, posy l - halfHandle),
       (NE, posx l + width v - halfHandle, posy l - halfHandle),
       (E, posx l + width v - halfHandle, posy l + height v / 2 - halfHandle),
       (SE, posx l + width v - halfHandle, posy l + height v - halfHandle),
       (S, posx l + width v / 2 - halfHandle, posy l + height v - halfHandle),
       (SW, posx l - halfHandle, posy l + height v - halfHandle),
       (W, posx l - halfHandle, posy l + height v / 2 - halfHandle)])"

definition getHandleAtPoint :: "layer \<Rightarrow> real \<Rightarrow> real \<Rightarrow> ResizeHandle option" where
  "getHandleAtPoint l px py =
     (case variant l of
        Video v \<Rightarrow>
          map_option fst
            (find (\<lambda>(t, hx, hy). px \<ge> hx \<and> px \<le> hx + HANDLE_SIZE \<and> py \<ge> hy \<and> py \<le> hy + HANDLE_SIZE)
               (getResizeHandles l v))
      | Text t \<Rightarrow> None)"

definition isPointInLayer :: "runtime \<Rightarrow> layer \<Rightarrow> real \<Rightarrow> real \<Rightarrow> bool" where
  "isPointInLayer rt l px py =
     (case variant l of
        Video v \<Rightarrow>
          px \<ge> posx l \<and> px \<le> posx l + width v \<and> py \<ge> posy l \<and> py \<le> posy l + height v
      | Text t \<Rightarrow>
          (let dimensions = measureText rt t in
           px \<ge> posx l \<and> px \<le> posx l + fst dimensions \<and>
           py \<ge> posy l \<and> py \<le> posy l + snd dimensions))"

section \<open>Layer operations\<close>

text \<open>
  \<^verbatim>\<open>updateLayer(id, updates)\<close> takes a \<^verbatim>\<open>Partial<Layer>\<close>: every field is optional.
  No caller passes \<^verbatim>\<open>id\<close> or \<^verbatim>\<open>type\<close>, so the record of updates leaves them out.
  \<open>spread\<close> is \<^verbatim>\<open>{ ...layer, ...updates }\<close>; a field of the other variant that an
  update carries is never read on this layer again and is dropped.
\<close>

record updates =
  set_name :: "string option"
  set_x :: "real option"
  set_y :: "real option"
  set_visible :: "bool option"
  set_zIndex :: "int option"
  set_width :: "real option"
  set_height :: "real option"
  set_aspectLocked :: "bool option"
  set_aspectRatio :: "real option"
  set_text :: "string option"
  set_fontSize :: "real option"
  set_fontFamily :: "string option"
  set_color :: "string option"
  set_bold :: "bool option"
  set_italic :: "bool option"

definition no_updates :: updates where
  "no_updates =
     \<lparr>set_name = None, set_x = None, set_y = None, set_visible = None, set_zIndex = None,
      set_width = None, set_height = None, set_aspectLocked = None, set_aspectRatio = None,
      set_text = None, set_fontSize = None, set_fontFamily = None, set_color = None,
      set_bold = None, set_italic = None\<rparr>"

definition orElse :: "'a option \<Rightarrow> 'a \<Rightarrow> 'a" where
  "orElse u old = (case u of None \<Rightarrow> old | Some new \<Rightarrow> new)"

definition spread :: "layer \<Rightarrow> updates \<Rightarrow> layer" where
  "spread l u =
     l\<lparr>name := orElse (set_name u) (name l),
       posx := orElse (set_x u) (posx l),
       posy := orElse (set_y u) (posy l),
       visible := orElse (set_visible u) (visible l),
       zIndex := orElse (set_zIndex u) (zIndex l),
       variant :=
         (case variant l of
            Video v \<Rightarrow>
              Video \<lparr>width = orElse (set_width u) (width v),
                     height = orElse (set_height u) (height v),
                     aspectLocked = orElse (set_aspectLocked u) (aspectLocked v),
                     aspectRatio = orElse (set_aspectRatio u) (aspectRatio v)\<rparr>
          | Text t \<Rightarrow>
              Text \<lparr>textContent = orElse (set_text u) (textContent t),
                    fontSize = orElse (set_fontSize u) (fontSize t),
                    fontFamily = orElse (set_fontFamily u) (fontFamily t),
                    color = orElse (set_color u) (color t),
                    bold = orElse (set_bold u) (bold t),
                    italic = orElse (set_italic u) (italic t)\<rparr>)\<rparr>"

text \<open>
  The body of the \<^verbatim>\<open>map\<close> in \<^verbatim>\<open>updateLayer\<close> for the layer whose id matches. The
  lock, the ratio and the old width and height are read from the layer before the
  update (\<^verbatim>\<open>layer.aspectLocked\<close>, \<^verbatim>\<open>layer.aspectRatio\<close>, \<^verbatim>\<open>layer.width / layer.height\<close>).
\<close>

definition updateOne :: "layer \<Rightarrow> updates \<Rightarrow> layer" where
  "updateOne l u =
     (let updatedLayer = spread l u in
      case (variant l, variant updatedLayer) of
        (Video v, Video uv) \<Rightarrow>
          (let uv1 =
                 (case (set_width u, set_height u) of
                    (Some w, None) \<Rightarrow>
                      if aspectLocked v then uv\<lparr>height := of_int (round (w / aspectRatio v))\<rparr> else uv
                  | (None, Some h) \<Rightarrow>
                      if aspectLocked v then uv\<lparr>width := of_int (round (h * aspectRatio v))\<rparr> else uv
                  | _ \<Rightarrow> uv);
               uv2 =
                 (if set_aspectLocked u = Some True
                  then uv1\<lparr>aspectRatio := width v / height v\<rparr> else uv1)
           in updatedLayer\<lparr>variant := Video uv2\<rparr>)
      | _ \<Rightarrow> updatedLayer)"

definition updateLayer :: "string \<Rightarrow> updates \<Rightarrow> composer \<Rightarrow> composer" where
  "updateLayer i u st =
     st\<lparr>layers := map (\<lambda>l. if lid l \<noteq> i then l else updateOne l u) (layers st)\<rparr>"

text \<open>
  \<^verbatim>\<open>addVideoLayer\<close> and \<^verbatim>\<open>addTextLayer\<close>; \<open>now\<close> is the reading of \<^verbatim>\<open>Date.now()\<close>.
\<close>

definition isVideo :: "layer \<Rightarrow> bool" where
  "isVideo l = (case variant l of Video v \<Rightarrow> True | Text t \<Rightarrow> False)"

definition addVideoLayer :: "nat \<Rightarrow> composer \<Rightarrow> composer" where
  "addVideoLayer now st =
     (let maxZIndex = (if length (layers st) > 0 then Max (set (map zIndex (layers st))) else 0);
          videos = filter isVideo (layers st);
          newLayer =
            \<lparr>lid = ''video-'' @ show_nat now,
             name = ''Video '' @ show_nat (length videos + 1),
             posx = snapValue st (20 + real (length (layers st) mod 3) * 30),
             posy = snapValue st (20 + real (length (layers st) mod 3) * 30),
             visible = True,
             zIndex = maxZIndex + 1,
             variant = Video \<lparr>width = 340, height = 340, aspectLocked = False, aspectRatio = 1\<rparr>\<rparr>
      in st\<lparr>layers := layers st @ [newLayer], selectedLayer := Some (lid newLayer)\<rparr>)"

definition addTextLayer :: "nat \<Rightarrow> composer \<Rightarrow> composer" where
  "addTextLayer now st =
     (let maxZIndex = (if length (layers st) > 0 then Max (set (map zIndex (layers st))) else 0);
          texts = filter (\<lambda>l. \<not> isVideo l) (layers st);
          newLayer =
            \<lparr>lid = ''text-'' @ show_nat now,
             name = ''Text '' @ show_nat (length texts + 1),
             posx = snapValue st 50,
             posy = snapValue st (50 + real (length texts) * 80),
             visible = True,
             zIndex = maxZIndex + 1,
             variant = Text \<lparr>textContent = ''Sample Text'', fontSize = 48, fontFamily = ''Arial'',
                             color = ''#ffffff'', bold = False, italic = False\<rparr>\<rparr>
      in st\<lparr>layers := layers st @ [newLayer], selectedLayer := Some (lid newLayer)\<rparr>)"

text \<open>
  \<^verbatim>\<open>duplicateLayer\<close>; \<open>now\<close> is the reading of \<^verbatim>\<open>Date.now()\<close>. \<^verbatim>\<open>Math.max\<close> is taken
  over a list that holds at least the layer found.
\<close>

definition typeName :: "variant \<Rightarrow> string" where
  "typeName p = (case p of Video v \<Rightarrow> ''video'' | Text t \<Rightarrow> ''text'')"

definition duplicateLayer :: "nat \<Rightarrow> string \<Rightarrow> composer \<Rightarrow> composer" where
  "duplicateLayer now i st =
     (case find (\<lambda>l. lid l = i) (layers st) of
        None \<Rightarrow> st
      | Some l \<Rightarrow>
          (let maxZIndex = Max (set (map zIndex (layers st)));
               newLayer =
                 l\<lparr>lid := typeName (variant l) @ ''-'' @ show_nat now,
                   name := name l @ '' (copy)'',
                   posx := snapValue st (min (fl (posx l + 30)) (fl (canvasWidth (canvasSize st) - 100))),
                   posy := snapValue st (min (fl (posy l + 30)) (fl (canvasHeight (canvasSize st) - 100))),
                   zIndex := maxZIndex + 1\<rparr>
           in st\<lparr>layers := layers st @ [newLayer], selectedLayer := Some (lid newLayer)\<rparr>))"

section \<open>Z-order manager\<close>

text \<open>
  \<^verbatim>\<open>moveLayerUp\<close> and \<^verbatim>\<open>moveLayerDown\<close>. The \<^verbatim>\<open>reduce\<close> without an initial value
  starts from the first element of the filtered list, which the guard before it has
  found non-empty.
\<close>

definition moveLayerUp :: "string \<Rightarrow> composer \<Rightarrow> composer" where
  "moveLayerUp i st =
     (case find (\<lambda>l. lid l = i) (layers st) of
        None \<Rightarrow> st
      | Some layer \<Rightarrow>
          (case filter (\<lambda>l. zIndex l > zIndex layer) (layers st) of
             [] \<Rightarrow> st
           | h # hs \<Rightarrow>
               (let nextHigher = foldl (\<lambda>m l. if zIndex l < zIndex m then l else m) h hs in
                st\<lparr>layers :=
                     map (\<lambda>l. if lid l = i then l\<lparr>zIndex := zIndex nextHigher\<rparr>
                               else if lid l = lid nextHigher then l\<lparr>zIndex := zIndex layer\<rparr>
                               else l) (layers st)\<rparr>)))"

definition moveLayerDown :: "string \<Rightarrow> composer \<Rightarrow> composer" where
  "moveLayerDown i st =
     (case find (\<lambda>l. lid l = i) (layers st) of
        None \<Rightarrow> st
      | Some layer \<Rightarrow>
          (case filter (\<lambda>l. zIndex l < zIndex layer) (layers st) of
             [] \<Rightarrow> st
           | h # hs \<Rightarrow>
               (let nextLower = foldl (\<lambda>m l. if zIndex l > zIndex m then l else m) h hs in
                st\<lparr>layers :=
                     map (\<lambda>l. if lid l = i then l\<lparr>zIndex := zIndex nextLower\<rparr>
                               else if lid l = lid nextLower then l\<lparr>zIndex := zIndex layer\<rparr>
                               else l) (layers st)\<rparr>)))"

section \<open>Interaction state machine\<close>

text \<open>
  \<^verbatim>\<open>handleCanvasMouseDown\<close> at the canvas point \<open>(px, py)\<close> that \<^verbatim>\<open>getMousePosition\<close>
  returned. \<open>handleHit\<close> is its first block (a handle of the selected video layer);
  \<open>clickedLayer\<close> is the lookup of the topmost layer under the point. JavaScript's
  \<^verbatim>\<open>sort\<close> is stable; \<^verbatim>\<open>(a, b) => b.zIndex - a.zIndex\<close> sorts by descending
  \<^verbatim>\<open>zIndex\<close>, which is the stable insertion sort on the negated key.
\<close>

definition handleHit :: "composer \<Rightarrow> real \<Rightarrow> real \<Rightarrow> (layer \<times> video_fields \<times> ResizeHandle) option" where
  "handleHit st px py =
     (if truthy (selectedLayer st) then
        (case find (\<lambda>l. Some (lid l) = selectedLayer st) (layers st) of
           None \<Rightarrow> None
         | Some l \<Rightarrow>
             (case variant l of
                Text t \<Rightarrow> None
              | Video v \<Rightarrow>
                  (case getHandleAtPoint l px py of
                     None \<Rightarrow> None
                   | Some h \<Rightarrow> Some (l, v, h))))
      else None)"

definition clickedLayer :: "runtime \<Rightarrow> composer \<Rightarrow> real \<Rightarrow> real \<Rightarrow> layer option" where
  "clickedLayer rt st px py =
     (let sortedLayers = sort_key (\<lambda>l. - zIndex l) (layers st) in
      find (\<lambda>l. visible l \<and> isPointInLayer rt l px py) sortedLayers)"

definition handleCanvasMouseDown :: "runtime \<Rightarrow> real \<Rightarrow> real \<Rightarrow> composer \<Rightarrow> composer" where
  "handleCanvasMouseDown rt px py st =
     (case handleHit st px py of
        Some (l, v, h) \<Rightarrow>
          st\<lparr>resizingLayer := selectedLayer st,
             resizeHandle := Some h,
             dragStart := \<lparr>ptx = px, pty = py\<rparr>,
             layerStart := \<lparr>rx = posx l, ry = posy l, rw = width v, rh = height v\<rparr>\<rparr>
      | None \<Rightarrow>
          (case clickedLayer rt st px py of
             Some c \<Rightarrow>
               st\<lparr>selectedLayer := Some (lid c),
                  draggingLayer := Some (lid c),
                  dragStart := \<lparr>ptx = fl (px - posx c), pty = fl (py - posy c)\<rparr>\<rparr>
           | None \<Rightarrow> st\<lparr>selectedLayer := None\<rparr>))"

text \<open>
  The \<^verbatim>\<open>switch (resizeHandle)\<close> of \<^verbatim>\<open>handleCanvasMouseMove\<close>: from the geometry at the
  start of the gesture and the pointer delta to \<^verbatim>\<open>newX, newY, newWidth, newHeight\<close>.
  Each sum, difference, product and quotient is rounded;
  \<^verbatim>\<open>layerStart.x + layerStart.width - newWidth\<close> is two operations, from the left.
\<close>

fun resizeGeometry :: "ResizeHandle \<Rightarrow> video_fields \<Rightarrow> rect \<Rightarrow> real \<Rightarrow> real \<Rightarrow> rect" where
  "resizeGeometry NW v s dx dy =
     (let newWidth = max MIN_SIZE (fl (rw s - dx));
          newHeight = (if aspectLocked v then fl (newWidth / aspectRatio v)
                       else max MIN_SIZE (fl (rh s - dy)))
      in \<lparr>rx = fl (fl (rx s + rw s) - newWidth), ry = fl (fl (ry s + rh s) - newHeight),
          rw = newWidth, rh = newHeight\<rparr>)"
| "resizeGeometry N v s dx dy =
     (let newHeight = max MIN_SIZE (fl (rh s - dy));
          newWidth = (if aspectLocked v then fl (newHeight * aspectRatio v) else rw s)
      in \<lparr>rx = rx s, ry = fl (fl (ry s + rh s) - newHeight), rw = newWidth, rh = newHeight\<rparr>)"
| "resizeGeometry NE v s dx dy =
     (let newWidth = max MIN_SIZE (fl (rw s + dx));
          newHeight = (if aspectLocked v then fl (newWidth / aspectRatio v)
                       else max MIN_SIZE (fl (rh s - dy)))
      in \<lparr>rx = rx s, ry = fl (fl (ry s + rh s) - newHeight), rw = newWidth, rh = newHeight\<rparr>)"
| "resizeGeometry E v s dx dy =
     (let newWidth = max MIN_SIZE (fl (rw s + dx));
          newHeight = (if aspectLocked v then fl (newWidth / aspectRatio v) else rh s)
      in \<lparr>rx = rx s, ry = ry s, rw = newWidth, rh = newHeight\<rparr>)"
| "resizeGeometry SE v s dx dy =
     (let newWidth = max MIN_SIZE (fl (rw s + dx));
          newHeight = (if aspectLocked v then fl (newWidth / aspectRatio v)
                       else max MIN_SIZE (fl (rh s + dy)))
      in \<lparr>rx = rx s, ry = ry s, rw = newWidth, rh = newHeight\<rparr>)"
| "resizeGeometry S v s dx dy =
     (let newHeight = max MIN_SIZE (fl (rh s + dy));
          newWidth = (if aspectLocked v then fl (newHeight * aspectRatio v) else rw s)
      in \<lparr>rx = rx s, ry = ry s, rw = newWidth, rh = newHeight\<rparr>)"
| "resizeGeometry SW v s dx dy =
     (let newWidth = max MIN_SIZE (fl (rw s - dx));
          newHeight = (if aspectLocked v then fl (newWidth / aspectRatio v)
                       else max MIN_SIZE (fl (rh s + dy)))
      in \<lparr>rx = fl (fl (rx s + rw s) - newWidth), ry = ry s, rw = newWidth, rh = newHeight\<rparr>)"
| "resizeGeometry W v s dx dy =
     (let newWidth = max MIN_SIZE (fl (rw s - dx));
          newHeight = (if aspectLocked v then fl (newWidth / aspectRatio v) else rh s)
      in \<lparr>rx = fl (fl (rx s + rw s) - newWidth), ry = ry s, rw = newWidth, rh = newHeight\<rparr>)"

text \<open>
  The update that a resize pointer-move passes to \<^verbatim>\<open>updateLayer\<close>: the geometry of
  the switch, its position constrained to the canvas, each of the four values snapped.
\<close>

definition resizeUpdates :: "composer \<Rightarrow> ResizeHandle \<Rightarrow> video_fields \<Rightarrow> real \<Rightarrow> real \<Rightarrow> updates" where
  "resizeUpdates st h v px py =
     (let dx = fl (px - ptx (dragStart st));
          dy = fl (py - pty (dragStart st));
          g = resizeGeometry h v (layerStart st) dx dy;
          newX = max 0 (min (fl (canvasWidth (canvasSize st) - rw g)) (rx g));
          newY = max 0 (min (fl (canvasHeight (canvasSize st) - rh g)) (ry g))
      in no_updates\<lparr>set_x := Some (snapValue st newX),
                     set_y := Some (snapValue st newY),
                     set_width := Some (snapValue st (rw g)),
                     set_height := Some (snapValue st (rh g))\<rparr>)"

text \<open>
  The update that a drag pointer-move passes: \<^verbatim>\<open>maxWidth\<close> and \<^verbatim>\<open>maxHeight\<close> are the
  layer's own size, measured for a text layer.
\<close>

definition layerSize :: "runtime \<Rightarrow> layer \<Rightarrow> real \<times> real" where
  "layerSize rt l =
     (case variant l of
        Video v \<Rightarrow> (width v, height v)
      | Text t \<Rightarrow> measureText rt t)"

definition dragUpdates :: "runtime \<Rightarrow> composer \<Rightarrow> layer \<Rightarrow> real \<Rightarrow> real \<Rightarrow> updates" where
  "dragUpdates rt st l px py =
     (let newX = fl (px - ptx (dragStart st));
          newY = fl (py - pty (dragStart st));
          maxWidth = fst (layerSize rt l);
          maxHeight = snd (layerSize rt l)
      in no_updates\<lparr>set_x := Some (snapValue st (max 0 (min (fl (canvasWidth (canvasSize st) - maxWidth)) newX))),
                     set_y := Some (snapValue st (max 0 (min (fl (canvasHeight (canvasSize st) - maxHeight)) newY)))\<rparr>)"

text \<open>
  \<^verbatim>\<open>handleCanvasMouseMove\<close>, without the cursor hint it sets at its end. The resize
  branch is taken when both \<^verbatim>\<open>resizingLayer\<close> and \<^verbatim>\<open>resizeHandle\<close> are set, and
  returns; otherwise the drag branch when \<^verbatim>\<open>draggingLayer\<close> is set.
\<close>

definition handleCanvasMouseMove :: "runtime \<Rightarrow> real \<Rightarrow> real \<Rightarrow> composer \<Rightarrow> composer" where
  "handleCanvasMouseMove rt px py st =
     (case (if truthy (resizingLayer st) then resizeHandle st else None) of
        Some h \<Rightarrow>
          (case find (\<lambda>l. Some (lid l) = resizingLayer st) (layers st) of
             None \<Rightarrow> st
           | Some l \<Rightarrow>
               (case variant l of
                  Text t \<Rightarrow> st
                | Video v \<Rightarrow> updateLayer (lid l) (resizeUpdates st h v px py) st))
      | None \<Rightarrow>
          (if truthy (draggingLayer st) then
             (case find (\<lambda>l. Some (lid l) = draggingLayer st) (layers st) of
                None \<Rightarrow> st
              | Some l \<Rightarrow> updateLayer (lid l) (dragUpdates rt st l px py) st)
           else st))"

definition handleCanvasMouseUp :: "composer \<Rightarrow> composer" where
  "handleCanvasMouseUp st =
     st\<lparr>draggingLayer := None, resizingLayer := None, resizeHandle := None\<rparr>"

section \<open>Filter-graph compiler\<close>

text \<open>
  \<^verbatim>\<open>generateFFmpegCommand\<close> builds the command by appending text. Every stage of the
  filter graph it appends has the same shape: the labels it reads in brackets, the
  filter, the label it writes in brackets. The model keeps that shape (\<open>stage\<close>) and
  prints it (\<open>renderStage\<close>), so that the labels of the command can be spoken about; a
  pad is an input stream \<^verbatim>\<open>[k:v]\<close> or a label \<^verbatim>\<open>[name]\<close>. Strings are byte strings:
  \<^verbatim>\<open>toLowerCase\<close> and \<^verbatim>\<open>\s\<close> act on ASCII.
\<close>

definition newline :: char where
  "newline = CHR 0x0A"

definition backslash :: char where
  "backslash = CHR 0x5C"

definition dquote :: char where
  "dquote = CHR 0x22"

definition squote :: char where
  "squote = CHR 0x27"

datatype pad = Stream nat | Label string

record stage =
  lead :: string
  consumes :: "pad list"
  body :: string
  produces :: string
  trail :: string

definition renderPad :: "pad \<Rightarrow> string" where
  "renderPad p = (case p of Stream k \<Rightarrow> ''['' @ show_nat k @ '':v]'' | Label s \<Rightarrow> ''['' @ s @ '']'')"

definition renderStage :: "stage \<Rightarrow> string" where
  "renderStage s =
     lead s @ concat (map renderPad (consumes s)) @ body s @ ''['' @ produces s @ '']'' @ trail s"

definition toLowerCase :: "string \<Rightarrow> string" where
  "toLowerCase s =
     map (\<lambda>c. if 65 \<le> (of_char c :: nat) \<and> (of_char c :: nat) \<le> 90
               then char_of ((of_char c :: nat) + 32) else c) s"

definition isSpace :: "char \<Rightarrow> bool" where
  "isSpace c = ((of_char c :: nat) \<in> {32, 9, 10, 11, 12, 13})"

text \<open>\<^verbatim>\<open>.replace(/\s+/g, "_")\<close>: \<open>prev\<close> is set inside a run of whitespace.\<close>

fun replaceSpaces :: "bool \<Rightarrow> string \<Rightarrow> string" where
  "replaceSpaces prev [] = []"
| "replaceSpaces prev (c # cs) =
     (if isSpace c then (if prev then replaceSpaces True cs else CHR ''_'' # replaceSpaces True cs)
      else c # replaceSpaces False cs)"

text \<open>\<^verbatim>\<open>.replace(/c/g, r)\<close> for one character, and \<^verbatim>\<open>.replace(pat, r)\<close> for a
  string pattern (the first occurrence only).\<close>

definition replaceAll :: "char \<Rightarrow> string \<Rightarrow> string \<Rightarrow> string" where
  "replaceAll c r s = concat (map (\<lambda>d. if d = c then r else [d]) s)"

fun replaceFirst :: "string \<Rightarrow> string \<Rightarrow> string \<Rightarrow> string" where
  "replaceFirst pat r [] = (if pat = [] then r else [])"
| "replaceFirst pat r (c # cs) =
     (if take (length pat) (c # cs) = pat then r @ drop (length pat) (c # cs)
      else c # replaceFirst pat r cs)"

definition visibleLayers :: "layer list \<Rightarrow> layer list" where
  "visibleLayers ls = sort_key zIndex (filter visible ls)"

fun videoLayers :: "layer list \<Rightarrow> (layer \<times> video_fields) list" where
  "videoLayers [] = []"
| "videoLayers (l # ls) =
     (case variant l of Video v \<Rightarrow> (l, v) # videoLayers ls | Text t \<Rightarrow> videoLayers ls)"

fun textLayers :: "layer list \<Rightarrow> (layer \<times> text_fields) list" where
  "textLayers [] = []"
| "textLayers (l # ls) =
     (case variant l of Video v \<Rightarrow> textLayers ls | Text t \<Rightarrow> (l, t) # textLayers ls)"

text \<open>The \<^verbatim>\<open>-i\<close> lines: one per video layer, then the template.\<close>

definition inputLine :: "layer \<Rightarrow> string" where
  "inputLine l =
     ''  -i '' @ [dquote] @ replaceSpaces False (toLowerCase (name l)) @ ''.mp4'' @ [dquote]
     @ '' '' @ [backslash, newline]"

definition templateInputLine :: string where
  "templateInputLine = ''  -i '' @ [dquote] @ ''template.png'' @ [dquote] @ '' '' @ [backslash, newline]"

definition baseStage :: "runtime \<Rightarrow> CanvasSize \<Rightarrow> stage" where
  "baseStage rt cs =
     \<lparr>lead = ''    '',
      consumes = [],
      body = ''color=size='' @ numberToString rt (canvasWidth cs) @ ''x''
             @ numberToString rt (canvasHeight cs) @ '':color=black:d=1'',
      produces = ''base'',
      trail = '';'' @ [newline, newline]\<rparr>"

fun scaleStages :: "nat \<Rightarrow> (layer \<times> video_fields) list \<Rightarrow> stage list" where
  "scaleStages idx [] = []"
| "scaleStages idx ((l, v) # rest) =
     \<lparr>lead = ''    '',
      consumes = [Stream idx],
      body = ''scale='' @ show_int (round (width v)) @ '':'' @ show_int (round (height v))
             @ '':force_original_aspect_ratio=decrease,'' @ [newline]
             @ ''    pad='' @ show_int (round (width v)) @ '':'' @ show_int (round (height v))
             @ '':(ow-iw)/2:(oh-ih)/2'',
      produces = ''v'' @ show_nat idx,
      trail = '';'' @ [newline, newline]\<rparr>
     # scaleStages (Suc idx) rest"

text \<open>
  The overlay loop and the drawtext loop thread \<^verbatim>\<open>currentBase\<close>; each returns its
  stages and the label it leaves in \<^verbatim>\<open>currentBase\<close>. \<open>n\<close> is the length of the
  whole list, \<open>idx\<close> the index of the head.
\<close>

fun overlayStages :: "nat \<Rightarrow> nat \<Rightarrow> string \<Rightarrow> (layer \<times> video_fields) list \<Rightarrow> stage list \<times> string" where
  "overlayStages n idx currentBase [] = ([], currentBase)"
| "overlayStages n idx currentBase ((l, v) # rest) =
     (let nextBase = (if Suc idx = n then ''videos'' else ''tmp'' @ show_nat idx);
          s = \<lparr>lead = ''    '',
               consumes = [Label currentBase, Label (''v'' @ show_nat idx)],
               body = ''overlay='' @ show_int (round (posx l)) @ '':'' @ show_int (round (posy l)),
               produces = nextBase,
               trail = '';'' @ [newline]\<rparr>;
          r = overlayStages n (Suc idx) nextBase rest
      in (s # fst r, snd r))"

definition drawtextBody :: "runtime \<Rightarrow> layer \<Rightarrow> text_fields \<Rightarrow> string" where
  "drawtextBody rt l t =
     (let escapedText = replaceAll CHR '':'' [backslash, CHR '':'']
                          (replaceAll squote [backslash, squote] (textContent t));
          fontfile = ''/System/Library/Fonts/'' @ fontFamily t @ ''.ttf''
      in ''drawtext=text='' @ [squote] @ escapedText @ [squote] @ '':''
         @ ''fontfile='' @ [squote] @ fontfile @ [squote] @ '':''
         @ ''fontsize='' @ numberToString rt (fontSize t) @ '':''
         @ ''fontcolor='' @ replaceFirst ''#'' ''0x'' (color t) @ '':''
         @ ''x='' @ show_int (round (posx l)) @ '':y='' @ show_int (round (posy l))
         @ (if bold t \<and> italic t then '':font='' @ [squote] @ fontFamily t @ '' Bold Italic'' @ [squote]
            else if bold t then '':font='' @ [squote] @ fontFamily t @ '' Bold'' @ [squote]
            else if italic t then '':font='' @ [squote] @ fontFamily t @ '' Italic'' @ [squote]
            else []))"

fun textStages :: "runtime \<Rightarrow> nat \<Rightarrow> nat \<Rightarrow> string \<Rightarrow> (layer \<times> text_fields) list \<Rightarrow> stage list \<times> string" where
  "textStages rt n idx currentBase [] = ([], currentBase)"
| "textStages rt n idx currentBase ((l, t) # rest) =
     (let nextBase = (if Suc idx = n then ''final'' else ''txt'' @ show_nat idx);
          s = \<lparr>lead = ''    '',
               consumes = [Label currentBase],
               body = drawtextBody rt l t,
               produces = nextBase,
               trail = '';'' @ [newline]\<rparr>;
          r = textStages rt n (Suc idx) nextBase rest
      in (s # fst r, snd r))"

definition templateStage :: "string \<Rightarrow> nat \<Rightarrow> stage" where
  "templateStage currentBase k =
     \<lparr>lead = [newline] @ ''    '',
      consumes = [Label currentBase, Stream k],
      body = ''overlay=0:0'',
      produces = ''output'',
      trail = [newline]\<rparr>"

text \<open>
  The stages of the filter graph in the order the source appends them, and the label
  that \<^verbatim>\<open>-map\<close> names (\<^verbatim>\<open>currentBase\<close> at the end). Without text layers the source
  renames the label: \<^verbatim>\<open>currentBase === "base" ? "final" :
  currentBase.replace("videos", "final")\<close>.
\<close>

definition filterGraph :: "runtime \<Rightarrow> composer \<Rightarrow> stage list \<times> string" where
  "filterGraph rt st =
     (let vl = videoLayers (visibleLayers (layers st));
          tl = textLayers (visibleLayers (layers st));
          ov = overlayStages (length vl) 0 ''base'' vl;
          tx = (if length tl > 0 then textStages rt (length tl) 0 (snd ov) tl
                else ([], if snd ov = ''base'' then ''final''
                          else replaceFirst ''videos'' ''final'' (snd ov)));
          tp = (if truthy (templateImage st)
                then ([templateStage (snd tx) (length vl)], ''output'')
                else ([], snd tx))
      in (baseStage rt (canvasSize st) # scaleStages 0 vl @ fst ov @ fst tx @ fst tp, snd tp))"

definition placeholder :: string where
  "placeholder = ''# Add at least one visible layer first''"

definition commandText :: "runtime \<Rightarrow> composer \<Rightarrow> string" where
  "commandText rt st =
     (if length (visibleLayers (layers st)) = 0 then placeholder
      else
        ''ffmpeg '' @ [backslash, newline]
        @ concat (map (\<lambda>(l, v). inputLine l) (videoLayers (visibleLayers (layers st))))
        @ (if truthy (templateImage st) then templateInputLine else [])
        @ ''  -filter_complex '' @ [dquote, newline]
        @ concat (map renderStage (fst (filterGraph rt st)))
        @ ''  '' @ [dquote] @ '' '' @ [backslash, newline]
        @ ''  -map '' @ [dquote] @ ''['' @ snd (filterGraph rt st) @ '']'' @ [dquote] @ '' ''
        @ [backslash, newline]
        @ ''  -c:v libx264 -pix_fmt yuv420p -crf 18 -preset medium '' @ [backslash, newline]
        @ ''  -shortest '' @ [backslash, newline]
        @ ''  '' @ [dquote] @ ''output.mp4'' @ [dquote])"

definition generateFFmpegCommand :: "runtime \<Rightarrow> composer \<Rightarrow> composer" where
  "generateFFmpegCommand rt st = st\<lparr>ffmpegCommand := commandText rt st\<rparr>"

text \<open>
  A command is chained when every label a stage reads was written by an earlier stage,
  and the label of \<^verbatim>\<open>-map\<close> was written by some stage. \<open>defined\<close> holds the labels
  written so far.
\<close>

definition padDefined :: "string list \<Rightarrow> pad \<Rightarrow> bool" where
  "padDefined defined p = (case p of Stream k \<Rightarrow> True | Label s \<Rightarrow> s \<in> set defined)"

fun stagesChained :: "string list \<Rightarrow> stage list \<Rightarrow> bool" where
  "stagesChained defined [] = True"
| "stagesChained defined (s # ss) =
     (list_all (padDefined defined) (consumes s) \<and> stagesChained (produces s # defined) ss)"

definition chained :: "stage list \<times> string \<Rightarrow> bool" where
  "chained g = (stagesChained [] (fst g) \<and> snd g \<in> set (map produces (fst g)))"

text \<open>Whether a text occurs inside another, for reading the compiler's output.\<close>

fun occursIn :: "string \<Rightarrow> string \<Rightarrow> bool" where
  "occursIn pat [] = (pat = [])"
| "occursIn pat (c # cs) = (take (length pat) (c # cs) = pat \<or> occursIn pat cs)"

section \<open>Reading a layer\<close>

text \<open>
  The layer that \<^verbatim>\<open>layers.find(l => l.id === id)\<close> returns, the stored size of a video
  layer, and the bounding box of any layer (measured for a text layer), as
  (x, y, width, height).
\<close>

definition findLayer :: "string \<Rightarrow> composer \<Rightarrow> layer option" where
  "findLayer i st = find (\<lambda>l. lid l = i) (layers st)"

definition videoSize :: "layer \<Rightarrow> (real \<times> real) option" where
  "videoSize l = (case variant l of Video v \<Rightarrow> Some (width v, height v) | Text t \<Rightarrow> None)"

definition videoLocked :: "layer \<Rightarrow> bool" where
  "videoLocked l = (case variant l of Video v \<Rightarrow> aspectLocked v | Text t \<Rightarrow> False)"

definition boundingBox :: "runtime \<Rightarrow> layer \<Rightarrow> real \<times> real \<times> real \<times> real" where
  "boundingBox rt l = (posx l, posy l, fst (layerSize rt l), snd (layerSize rt l))"

section \<open>Example states\<close>

text \<open>
  Concrete inputs for evaluation. \<open>plainLayer\<close> is the layer that \<^verbatim>\<open>addVideoLayer\<close>
  creates first; \<open>lockedLayer\<close> is a 400 by 100 video layer whose aspect lock was
  switched on. The example runtime prints the integer-valued numbers it is given in
  decimal and measures ten pixels per character.
\<close>

definition exampleRuntime :: runtime where
  "exampleRuntime =
     \<lparr>numberToString = (\<lambda>r. show_int (round r)),
      measureWidth = Some (\<lambda>font t. 10 * real (length t))\<rparr>"

definition plainLayer :: layer where
  "plainLayer =
     \<lparr>lid = ''video-1'', name = ''Video 1'', posx = 20, posy = 20, visible = True, zIndex = 1,
      variant = Video \<lparr>width = 340, height = 340, aspectLocked = False, aspectRatio = 1\<rparr>\<rparr>"

definition plainState :: composer where
  "plainState = initialComposer\<lparr>layers := [plainLayer], selectedLayer := Some ''video-1''\<rparr>"

definition lockedLayer :: layer where
  "lockedLayer =
     \<lparr>lid = ''video-1'', name = ''Video 1'', posx = 20, posy = 20, visible = True, zIndex = 1,
      variant = Video \<lparr>width = 400, height = 100, aspectLocked = True, aspectRatio = 4\<rparr>\<rparr>"

definition lockedState :: composer where
  "lockedState = initialComposer\<lparr>layers := [lockedLayer], selectedLayer := Some ''video-1''\<rparr>"

text \<open>
  \<open>wideLayer\<close> is a 350 by 50 video layer whose aspect lock was switched on: its stored
  ratio is 7.
\<close>

definition wideLayer :: layer where
  "wideLayer =
     \<lparr>lid = ''video-1'', name = ''Video 1'', posx = 20, posy = 20, visible = True, zIndex = 1,
      variant = Video \<lparr>width = 350, height = 50, aspectLocked = True, aspectRatio = 7\<rparr>\<rparr>"

text \<open>
  \<open>secondLayer\<close> is the layer a second \<^verbatim>\<open>addVideoLayer\<close> creates; it overlaps the first.
\<close>

definition secondLayer :: layer where
  "secondLayer =
     \<lparr>lid = ''video-2'', name = ''Video 2'', posx = 50, posy = 50, visible = True, zIndex = 2,
      variant = Video \<lparr>width = 340, height = 340, aspectLocked = False, aspectRatio = 1\<rparr>\<rparr>"

definition twoLayerState :: composer where
  "twoLayerState = initialComposer\<lparr>layers := [plainLayer, secondLayer], selectedLayer := Some ''video-2''\<rparr>"

text \<open>
  \<open>draggingState\<close> is \<open>plainState\<close> after a pointer-down at (30, 30), inside the
  layer; \<open>resizingState l h px py\<close> is the state after a pointer-down at \<open>(px, py)\<close> on
  the handle \<open>h\<close> of the selected layer \<open>l\<close>, the only layer.
\<close>

definition draggingState :: composer where
  "draggingState = plainState\<lparr>draggingLayer := Some ''video-1'', dragStart := \<lparr>ptx = 10, pty = 10\<rparr>\<rparr>"

definition resizingState :: "layer \<Rightarrow> ResizeHandle \<Rightarrow> real \<Rightarrow> real \<Rightarrow> composer" where
  "resizingState l h px py =
     initialComposer\<lparr>layers := [l], selectedLayer := Some (lid l),
       resizingLayer := Some (lid l), resizeHandle := Some h,
       dragStart := \<lparr>ptx = px, pty = py\<rparr>,
       layerStart := \<lparr>rx = posx l, ry = posy l,
                      rw = (case variant l of Video v \<Rightarrow> width v | Text t \<Rightarrow> 0),
                      rh = (case variant l of Video v \<Rightarrow> height v | Text t \<Rightarrow> 0)\<rparr>\<rparr>"

section \<open>The specification's reading of point containment\<close>

text \<open>
  The specification words containment as the half-open box \<open>[x, x+w) \<times> [y, y+h)\<close>. This
  definition follows those words, to be compared with \<open>isPointInLayer\<close>.
\<close>

definition specPointInLayer :: "runtime \<Rightarrow> layer \<Rightarrow> real \<Rightarrow> real \<Rightarrow> bool" where
  "specPointInLayer rt l px py =
     (case boundingBox rt l of (bx, by, bw, bh) \<Rightarrow>
        bx \<le> px \<and> px < bx + bw \<and> by \<le> py \<and> py < by + bh)"

section \<open>The canvas bound\<close>

text \<open>
  The bound the specification states for the bounding box of a layer after a drag or a
  resize: \<open>x \<ge> 0\<close>, \<open>y \<ge> 0\<close>, \<open>x + width \<le> canvas.width\<close>, \<open>y + height \<le> canvas.height\<close>.
\<close>

definition withinCanvas :: "runtime \<Rightarrow> CanvasSize \<Rightarrow> layer \<Rightarrow> bool" where
  "withinCanvas rt cs l =
     (case boundingBox rt l of (bx, by, bw, bh) \<Rightarrow>
        0 \<le> bx \<and> 0 \<le> by \<and> bx + bw \<le> canvasWidth cs \<and> by + bh \<le> canvasHeight cs)"

section \<open>The two moves as one\<close>

text \<open>
  \<^verbatim>\<open>moveLayerUp\<close> and \<^verbatim>\<open>moveLayerDown\<close> differ only in the direction of their
  comparisons. \<open>moveBy key\<close> is their common shape, with the comparisons made on
  \<open>key zIndex\<close>: the identity gives the first, the negation the second (lemmas
  \<open>moveLayerUp_moveBy\<close> and \<open>moveLayerDown_moveBy\<close>). \<open>swapZ\<close> is the function that both
  map over the layers.
\<close>

definition moveBy :: "(int \<Rightarrow> int) \<Rightarrow> string \<Rightarrow> composer \<Rightarrow> composer" where
  "moveBy key i st =
     (case find (\<lambda>l. lid l = i) (layers st) of
        None \<Rightarrow> st
      | Some layer \<Rightarrow>
          (case filter (\<lambda>l. key (zIndex l) > key (zIndex layer)) (layers st) of
             [] \<Rightarrow> st
           | h # hs \<Rightarrow>
               (let nxt = foldl (\<lambda>m l. if key (zIndex l) < key (zIndex m) then l else m) h hs in
                st\<lparr>layers :=
                     map (\<lambda>l. if lid l = i then l\<lparr>zIndex := zIndex nxt\<rparr>
                               else if lid l = lid nxt then l\<lparr>zIndex := zIndex layer\<rparr>
                               else l) (layers st)\<rparr>)))"

definition swapZ :: "string \<Rightarrow> layer \<Rightarrow> layer \<Rightarrow> layer \<Rightarrow> layer" where
  "swapZ i t n l =
     (if lid l = i then l\<lparr>zIndex := zIndex n\<rparr>
      else if lid l = lid n then l\<lparr>zIndex := zIndex t\<rparr>
      else l)"

section \<open>Facts about double-precision rounding\<close>

lemma expo_bounds: "0 < x \<Longrightarrow> 2 powi expo x \<le> x \<and> x < 2 powi (expo x + 1)"
proof (induction x rule: expo.induct)
  case (1 x)
  show ?case
  proof (cases "2 \<le> x")
    case True
    then have e: "expo x = expo (x / 2) + 1" by (simp add: expo.simps[of x])
    have "0 < x / 2" using True by simp
    from "1.IH"(1)[OF True this]
    have "2 powi expo (x / 2) \<le> x / 2" "x / 2 < 2 powi (expo (x / 2) + 1)" by simp_all
    then show ?thesis
      unfolding e by (simp add: power_int_add field_simps)
  next
    case False
    show ?thesis
    proof (cases "x < 1")
      case True
      with "1.prems" have c: "0 < x \<and> x < 1" by simp
      then have e: "expo x = expo (2 * x) - 1" using False by (simp add: expo.simps[of x])
      have "0 < 2 * x" using c by simp
      from "1.IH"(2)[OF False c this]
      have "2 powi expo (2 * x) \<le> 2 * x" "2 * x < 2 powi (expo (2 * x) + 1)" by simp_all
      then show ?thesis
        unfolding e by (simp add: power_int_add power_int_diff field_simps)
    next
      case F2: False
      then have "expo x = 0" using False by (simp add: expo.simps[of x])
      with False F2 show ?thesis by simp
    qed
  qed
qed


lemma roundEven_of_int [simp]: "roundEven (of_int n) = n"
  by (simp add: roundEven_def)

lemma roundEven_error: "\<bar>of_int (roundEven x) - x\<bar> \<le> 1 / 2"
proof -
  have "of_int \<lfloor>x\<rfloor> \<le> x" "x < of_int \<lfloor>x\<rfloor> + 1" by linarith+
  then show ?thesis
    by (auto simp: roundEven_def Let_def)
qed

lemma roundEven_mono: "x \<le> y \<Longrightarrow> roundEven x \<le> roundEven y"
proof -
  assume xy: "x \<le> y"
  then have f: "\<lfloor>x\<rfloor> \<le> \<lfloor>y\<rfloor>" by (rule floor_mono)
  have bx: "\<lfloor>x\<rfloor> \<le> roundEven x" "roundEven x \<le> \<lfloor>x\<rfloor> + 1"
    and by': "\<lfloor>y\<rfloor> \<le> roundEven y" "roundEven y \<le> \<lfloor>y\<rfloor> + 1"
    by (auto simp: roundEven_def Let_def)
  show ?thesis
  proof (cases "\<lfloor>x\<rfloor> = \<lfloor>y\<rfloor>")
    case False
    with f have "\<lfloor>x\<rfloor> + 1 \<le> \<lfloor>y\<rfloor>" by simp
    with bx by' show ?thesis by linarith
  next
    case True
    then have "x - of_int \<lfloor>x\<rfloor> \<le> y - of_int \<lfloor>y\<rfloor>" using xy by simp
    then show ?thesis
      using True by (auto simp: roundEven_def Let_def)
  qed
qed

lemma fl_0 [simp]: "fl 0 = 0"
  by (simp add: fl_def)


lemma fl_error: "\<bar>fl x - x\<bar> \<le> \<bar>x\<bar> / 2 ^ 53"
proof (cases "x = 0")
  case True
  then show ?thesis by simp
next
  case False
  define e where "e = expo \<bar>x\<bar>"
  define p :: real where "p = 2 powi (e - 52)"
  have b: "2 powi e \<le> \<bar>x\<bar>"
    using expo_bounds[of "\<bar>x\<bar>"] False by (simp add: e_def)
  have p: "0 < p" by (simp add: p_def)
  have f: "fl x = of_int (roundEven (x / p)) * p"
    using False by (simp add: fl_def p_def e_def Let_def)
  have "\<bar>of_int (roundEven (x / p)) - x / p\<bar> * p \<le> 1 / 2 * p"
    using p by (intro mult_right_mono roundEven_error) simp
  moreover have "(of_int (roundEven (x / p)) - x / p) * p = fl x - x"
    using p by (simp add: f left_diff_distrib)
  then have "\<bar>of_int (roundEven (x / p)) - x / p\<bar> * p = \<bar>fl x - x\<bar>"
    using p by (metis abs_mult abs_of_pos)
  moreover have "1 / 2 * p = 2 powi e / 2 ^ 53"
    by (simp add: p_def power_int_diff)
  ultimately have "\<bar>fl x - x\<bar> \<le> 2 powi e / 2 ^ 53" by simp
  also have "\<dots> \<le> \<bar>x\<bar> / 2 ^ 53"
    using b by (simp add: divide_right_mono)
  finally show ?thesis .
qed


lemma fl_nonneg: "0 \<le> x \<Longrightarrow> 0 \<le> fl x"
proof (cases "x = 0")
  case True then show ?thesis by simp
next
  case False
  assume "0 \<le> x"
  then have "0 \<le> x / 2 powi (expo \<bar>x\<bar> - 52)" by simp
  then have "roundEven 0 \<le> roundEven (x / 2 powi (expo \<bar>x\<bar> - 52))"
    by (rule roundEven_mono)
  then show ?thesis
    using False by (simp add: fl_def Let_def roundEven_def)
qed

text \<open>Numbers with a significand of at most 53 bits are not changed.\<close>

lemma fl_dyadic:
  assumes "\<bar>m\<bar> \<le> 2 ^ 53"
  shows "fl (of_int m * 2 powi k) = of_int m * 2 powi k"
proof (cases "m = 0")
  case True then show ?thesis by simp
next
  case False
  define x :: real where "x = of_int m * 2 powi k"
  define e where "e = expo \<bar>x\<bar>"
  have x0: "x \<noteq> 0" using False by (simp add: x_def)
  have ax: "\<bar>x\<bar> = of_int \<bar>m\<bar> * 2 powi k" by (simp add: x_def abs_mult)
  have b: "2 powi e \<le> \<bar>x\<bar>" "\<bar>x\<bar> < 2 powi (e + 1)"
    using expo_bounds[of "\<bar>x\<bar>"] x0 by (simp_all add: e_def)
  have m53: "(of_int \<bar>m\<bar> :: real) \<le> 2 powi 53"
  proof -
    have "(of_int \<bar>m\<bar> :: real) \<le> of_int (2 ^ 53)" using assms by (subst of_int_le_iff)
    then show ?thesis by simp
  qed
  have "\<bar>x\<bar> \<le> 2 powi 53 * 2 powi k"
    unfolding ax using m53 by (intro mult_right_mono) simp_all
  then have "\<bar>x\<bar> \<le> 2 powi (53 + k)" by (simp add: power_int_add)
  with b(1) have le: "(2::real) powi e \<le> 2 powi (53 + k)" by linarith
  have ek: "e \<le> 53 + k"
  proof (rule ccontr)
    assume "\<not> e \<le> 53 + k"
    then have "53 + k < e" by simp
    then have "(2::real) powi (53 + k) < 2 powi e" by (intro power_int_strict_increasing) simp_all
    with le show False by simp
  qed
  have fx: "fl x = of_int (roundEven (x / 2 powi (e - 52))) * 2 powi (e - 52)"
    using x0 by (simp add: fl_def e_def Let_def)
  have q: "x / 2 powi (e - 52) = of_int m * 2 powi (k - e + 52)"
    by (simp add: x_def power_int_diff power_int_add field_simps)
  have "\<exists>n::int. x / 2 powi (e - 52) = of_int n"
  proof (cases "0 \<le> k - e + 52")
    case True
    then have "(2::real) powi (k - e + 52) = of_int (2 ^ nat (k - e + 52))"
      by (simp add: power_int_nonneg_exp)
    then have "x / 2 powi (e - 52) = of_int (m * 2 ^ nat (k - e + 52))"
      unfolding q by simp
    then show ?thesis by blast
  next
    case F: False
    with ek have ke: "e = 53 + k" by simp
    then have "2 powi (53 + k) \<le> of_int \<bar>m\<bar> * (2::real) powi k"
      using b(1) ax by simp
    then have "2 powi 53 * 2 powi k \<le> of_int \<bar>m\<bar> * (2::real) powi k"
      by (simp add: power_int_add)
    then have "(2::real) powi 53 \<le> of_int \<bar>m\<bar>"
      by (simp add: mult_le_cancel_right)
    with m53 have "(of_int \<bar>m\<bar> :: real) = 2 ^ 53" by simp
    then have "(of_int \<bar>m\<bar> :: real) = of_int (2 ^ 53)" by simp
    then have "\<bar>m\<bar> = 2 ^ 53" by (subst (asm) of_int_eq_iff)
    then have mm: "m = 2 ^ 53 \<or> m = - (2 ^ 53)" by linarith
    have km: "k - e + 52 = - 1" using ke by simp
    have h: "(2::real) powi (- 1) = 1 / 2" by (simp add: power_int_minus)
    have "x / 2 powi (e - 52) = of_int m * (1 / 2)"
      unfolding q km h ..
    then have hm: "x / 2 powi (e - 52) = of_int m / 2" by simp
    from mm show ?thesis
    proof
      assume "m = 2 ^ 53"
      then have "x / 2 powi (e - 52) = of_int (2 ^ 52)" unfolding hm by simp
      then show ?thesis by blast
    next
      assume "m = - (2 ^ 53)"
      then have "x / 2 powi (e - 52) = of_int (- (2 ^ 52))" unfolding hm by simp
      then show ?thesis by blast
    qed
  qed
  then obtain n :: int where n: "x / 2 powi (e - 52) = of_int n" by blast
  then have "of_int n * 2 powi (e - 52) = x"
    by (simp add: field_simps)
  then have "fl x = x"
    unfolding fx n by simp
  then show ?thesis by (simp add: x_def)
qed

lemma fl_of_int: "\<bar>m\<bar> \<le> 2 ^ 53 \<Longrightarrow> fl (of_int m) = of_int m"
  using fl_dyadic[of m 0] by simp


lemma fl_range:
  assumes "0 < x"
  shows "2 powi expo x \<le> fl x \<and> fl x \<le> 2 powi (expo x + 1)"
proof -
  define e where "e = expo x"
  define p :: real where "p = 2 powi (e - 52)"
  have p: "0 < p" by (simp add: p_def)
  have b: "2 powi e \<le> x" "x < 2 powi (e + 1)"
    using expo_bounds[OF assms] by (simp_all add: e_def)
  have f: "fl x = of_int (roundEven (x / p)) * p"
    using assms by (simp add: fl_def p_def e_def Let_def)
  have lo: "2 powi e = of_int (2 ^ 52) * p"
    by (simp add: p_def power_int_diff)
  have hi: "2 powi (e + 1) = of_int (2 ^ 53) * p"
    by (simp add: p_def power_int_diff power_int_add)
  have "of_int (2 ^ 52) \<le> x / p"
    using b(1) p unfolding lo by (simp add: pos_le_divide_eq)
  then have "roundEven (of_int (2 ^ 52)) \<le> roundEven (x / p)" by (rule roundEven_mono)
  then have 1: "(2 ^ 52 :: int) \<le> roundEven (x / p)" by (simp only: roundEven_of_int)
  have "x / p \<le> of_int (2 ^ 53)"
    using b(2) p unfolding hi by (simp add: pos_divide_le_eq)
  then have "roundEven (x / p) \<le> roundEven (of_int (2 ^ 53))" by (rule roundEven_mono)
  then have 2: "roundEven (x / p) \<le> (2 ^ 53 :: int)" by (simp only: roundEven_of_int)
  have "of_int (2 ^ 52) * p \<le> of_int (roundEven (x / p)) * p"
    using 1 p by (intro mult_right_mono) (simp_all only: of_int_le_iff less_imp_le)
  moreover have "of_int (roundEven (x / p)) * p \<le> of_int (2 ^ 53) * p"
    using 2 p by (intro mult_right_mono) (simp_all only: of_int_le_iff less_imp_le)
  ultimately show ?thesis
    unfolding f e_def[symmetric] lo hi by simp
qed

lemma fl_mono_pos:
  assumes "0 < x" and "x \<le> y"
  shows "fl x \<le> fl y"
proof -
  have y: "0 < y" using assms by linarith
  note bx = expo_bounds[OF assms(1)] and by' = expo_bounds[OF y]
  have le: "expo x \<le> expo y"
  proof (rule ccontr)
    assume "\<not> expo x \<le> expo y"
    then have "expo y + 1 \<le> expo x" by simp
    then have "(2::real) powi (expo y + 1) \<le> 2 powi expo x"
      by (intro power_int_increasing) simp_all
    with bx by' assms(2) show False by linarith
  qed
  show ?thesis
  proof (cases "expo x = expo y")
    case True
    define p :: real where "p = 2 powi (expo y - 52)"
    have p: "0 < p" by (simp add: p_def)
    have "x / p \<le> y / p" using assms(2) p by (simp add: divide_right_mono)
    then have "roundEven (x / p) \<le> roundEven (y / p)" by (rule roundEven_mono)
    then have "of_int (roundEven (x / p)) * p \<le> of_int (roundEven (y / p)) * p"
      using p by (intro mult_right_mono) simp_all
    then show ?thesis
      using assms(1) y True by (simp add: fl_def Let_def p_def)
  next
    case False
    with le have "expo x + 1 \<le> expo y" by simp
    then have "(2::real) powi (expo x + 1) \<le> 2 powi expo y"
      by (intro power_int_increasing) simp_all
    with fl_range[OF assms(1)] fl_range[OF y] show ?thesis by linarith
  qed
qed

lemma fl_mono_nonneg:
  assumes "0 \<le> x" and "x \<le> y"
  shows "fl x \<le> fl y"
proof (cases "x = 0")
  case True
  with assms fl_nonneg[of y] show ?thesis by simp
next
  case False
  with assms(1) have "0 < x" by simp
  then show ?thesis using assms(2) by (rule fl_mono_pos)
qed

lemma round_fl:
  assumes "\<bar>x - of_int n\<bar> + \<bar>x\<bar> / 2 ^ 53 < 1 / 2"
  shows "round (fl x) = n"
proof -
  have "\<bar>fl x - of_int n\<bar> \<le> \<bar>fl x - x\<bar> + \<bar>x - of_int n\<bar>" by linarith
  with fl_error[of x] assms have "\<bar>fl x - of_int n\<bar> < 1 / 2" by linarith
  then show ?thesis by (rule round_unique')
qed

lemma fl_eq_0_iff [simp]: "fl x = 0 \<longleftrightarrow> x = 0"
proof
  assume "fl x = 0"
  with fl_error[of x] have "\<bar>x\<bar> \<le> \<bar>x\<bar> / 2 ^ 53" by simp
  then have "\<bar>x\<bar> * 2 ^ 53 \<le> \<bar>x\<bar>" by (simp add: pos_le_divide_eq)
  then show "x = 0" by (cases "x = 0") simp_all
qed simp

lemma fl_numeral [simp]:
  "numeral n \<le> (2::int) ^ 53 \<Longrightarrow> fl (numeral n) = numeral n"
  "numeral n \<le> (2::int) ^ 53 \<Longrightarrow> fl (- numeral n) = - numeral n"
  "fl 1 = 1"
  using fl_of_int[of "numeral n"] fl_of_int[of "- numeral n"] fl_of_int[of 1] by simp_all

lemma fl_scaled: "\<bar>m\<bar> \<le> 2 ^ 53 \<Longrightarrow> fl (of_int m / 2 ^ k) = of_int m / 2 ^ k"
proof -
  assume m: "\<bar>m\<bar> \<le> 2 ^ 53"
  have "(2::real) powi (- int k) = 1 / 2 ^ k"
    by (simp add: power_int_minus divide_inverse)
  then have "of_int m * (2::real) powi (- int k) = of_int m / 2 ^ k" by simp
  with fl_dyadic[OF m, of "- int k"] show ?thesis by simp
qed

lemma fl_half [simp]:
  "numeral n \<le> (2::int) ^ 53 \<Longrightarrow> fl (numeral n / 2) = numeral n / 2"
  "numeral n \<le> (2::int) ^ 53 \<Longrightarrow> fl (numeral n / 8) = numeral n / 8"
  "numeral n \<le> (2::int) ^ 53 \<Longrightarrow> fl (numeral n / 4) = numeral n / 4"
  "fl (1 / 2) = 1 / 2" "fl (1 / 8) = 1 / 8"
proof -
  show "numeral n \<le> (2::int) ^ 53 \<Longrightarrow> fl (numeral n / 4) = numeral n / 4"
    using fl_scaled[of "numeral n" 2] by simp
  show "numeral n \<le> (2::int) ^ 53 \<Longrightarrow> fl (numeral n / 2) = numeral n / 2"
    using fl_scaled[of "numeral n" 1] by simp
  show "numeral n \<le> (2::int) ^ 53 \<Longrightarrow> fl (numeral n / 8) = numeral n / 8"
    using fl_scaled[of "numeral n" 3] by simp
  show "fl (1 / 2) = 1 / 2" using fl_scaled[of 1 1] by simp
  show "fl (1 / 8) = 1 / 8" using fl_scaled[of 1 3] by simp
qed





text \<open>The rounded quotient and product of the snap utility.\<close>

lemma snap_mono:
  assumes "0 < g" and "0 \<le> a" and "a \<le> b"
  shows "0 \<le> fl (of_int (round (fl (a / g))) * g)
       \<and> fl (of_int (round (fl (a / g))) * g) \<le> fl (of_int (round (fl (b / g))) * g)"
proof -
  have "0 \<le> a / g" "a / g \<le> b / g" using assms by (simp_all add: divide_right_mono)
  then have q: "0 \<le> fl (a / g)" "fl (a / g) \<le> fl (b / g)"
    by (simp_all add: fl_nonneg fl_mono_nonneg)
  have "round (0::real) \<le> round (fl (a / g))" "round (fl (a / g)) \<le> round (fl (b / g))"
    using round_mono[OF q(1)] round_mono[OF q(2)] by simp_all
  then have "0 \<le> round (fl (a / g))" "round (fl (a / g)) \<le> round (fl (b / g))"
    by simp_all
  then have m: "0 \<le> (of_int (round (fl (a / g))) :: real) * g"
    "(of_int (round (fl (a / g))) :: real) * g \<le> of_int (round (fl (b / g))) * g"
    using assms(1) by (simp_all add: mult_right_mono)
  show ?thesis
    using fl_nonneg[OF m(1)] fl_mono_nonneg[OF m] by simp
qed









section \<open>Properties of the snap utility\<close>

lemma snapValue_off: "\<not> snapToGrid st \<Longrightarrow> snapValue st v = v"
  by (simp add: snapValue_def)


lemma snapValue_nonneg: "0 < gridSize st \<Longrightarrow> 0 \<le> v \<Longrightarrow> 0 \<le> snapValue st v"
  using snap_mono[of "gridSize st" v v] by (simp add: snapValue_def)




lemma round_fl_examples:
  "round (fl (33 / 20)) = 2" "round (fl (41 / 6)) = 7" "round (fl (5 / 6)) = 1"
proof -
  show "round (fl (33 / 20)) = 2" by (rule round_fl) simp
  show "round (fl (41 / 6)) = 7" by (rule round_fl) simp
  show "round (fl (5 / 6)) = 1" by (rule round_fl) simp
qed





section \<open>Facts about the update operation and the pointer-move\<close>

lemma lid_spread: "lid (spread l u) = lid l"
  by (simp add: spread_def)

lemma lid_updateOne: "lid (updateOne l u) = lid l"
  by (simp add: updateOne_def Let_def spread_def split: variant.splits prod.splits option.splits)

lemma find_map_lid:
  assumes "\<And>l. lid (f l) = lid l"
  shows "find (\<lambda>l. lid l = i) (map f ls) = map_option f (find (\<lambda>l. lid l = i) ls)"
  by (induction ls) (simp_all add: assms)

lemma findLayer_updateLayer:
  "findLayer i (updateLayer j u st) =
     map_option (\<lambda>l. if lid l \<noteq> j then l else updateOne l u) (findLayer i st)"
  unfolding findLayer_def updateLayer_def
  by (simp add: find_map_lid lid_updateOne)

lemma updateOne_videoSize:
  assumes "variant l = Video v"
  shows "videoSize (updateOne l u) = Some
     (case (set_width u, set_height u) of
        (Some w, Some h) \<Rightarrow> (w, h)
      | (Some w, None) \<Rightarrow> (w, if aspectLocked v then of_int (round (w / aspectRatio v)) else height v)
      | (None, Some h) \<Rightarrow> (if aspectLocked v then of_int (round (h * aspectRatio v)) else width v, h)
      | (None, None) \<Rightarrow> (width v, height v))"
  using assms
  by (simp add: updateOne_def Let_def spread_def videoSize_def orElse_def split: option.splits)

lemma updateOne_videoLocked:
  assumes "variant l = Video v"
  shows "videoLocked (updateOne l u) = orElse (set_aspectLocked u) (aspectLocked v)"
  using assms
  by (simp add: updateOne_def Let_def spread_def videoLocked_def orElse_def split: option.splits)

lemma handleCanvasMouseMove_resize:
  assumes "resizingLayer st = Some i" and "i \<noteq> []" and "resizeHandle st = Some h"
    and "findLayer i st = Some l" and "variant l = Video v"
  shows "handleCanvasMouseMove rt px py st = updateLayer i (resizeUpdates st h v px py) st"
proof -
  have "lid l = i"
    using assms(4) unfolding findLayer_def by (auto dest: find_Some_iff[THEN iffD1])
  then show ?thesis
    using assms by (simp add: handleCanvasMouseMove_def truthy_def findLayer_def)
qed

lemma resizeUpdates_fields:
  "set_x (resizeUpdates st h v px py) =
     Some (snapValue st (max 0 (min (fl (canvasWidth (canvasSize st)
        - rw (resizeGeometry h v (layerStart st) (fl (px - ptx (dragStart st))) (fl (py - pty (dragStart st))))))
        (rx (resizeGeometry h v (layerStart st) (fl (px - ptx (dragStart st))) (fl (py - pty (dragStart st))))))))"
  "set_y (resizeUpdates st h v px py) =
     Some (snapValue st (max 0 (min (fl (canvasHeight (canvasSize st)
        - rh (resizeGeometry h v (layerStart st) (fl (px - ptx (dragStart st))) (fl (py - pty (dragStart st))))))
        (ry (resizeGeometry h v (layerStart st) (fl (px - ptx (dragStart st))) (fl (py - pty (dragStart st))))))))"
  "set_width (resizeUpdates st h v px py) =
     Some (snapValue st (rw (resizeGeometry h v (layerStart st) (fl (px - ptx (dragStart st))) (fl (py - pty (dragStart st))))))"
  "set_height (resizeUpdates st h v px py) =
     Some (snapValue st (rh (resizeGeometry h v (layerStart st) (fl (px - ptx (dragStart st))) (fl (py - pty (dragStart st))))))"
  by (simp_all add: resizeUpdates_def Let_def no_updates_def)

lemma findLayer_resize:
  assumes "resizingLayer st = Some i" and "i \<noteq> []" and "resizeHandle st = Some h"
    and "findLayer i st = Some l" and "variant l = Video v"
  shows "findLayer i (handleCanvasMouseMove rt px py st)
           = Some (updateOne l (resizeUpdates st h v px py))"
proof -
  have "lid l = i"
    using assms(4) unfolding findLayer_def by (auto dest: find_Some_iff[THEN iffD1])
  then show ?thesis
    using assms by (simp add: handleCanvasMouseMove_resize[OF assms] findLayer_updateLayer)
qed




lemma plainLayer_facts:
  "lid plainLayer = ''video-1''" "posx plainLayer = 20" "posy plainLayer = 20"
  by (simp_all add: plainLayer_def)

lemma lockedLayer_facts:
  "lid lockedLayer = ''video-1''" "posx lockedLayer = 20" "posy lockedLayer = 20"
  "variant lockedLayer = Video \<lparr>width = 400, height = 100, aspectLocked = True, aspectRatio = 4\<rparr>"
  by (simp_all add: lockedLayer_def)

lemma plainState_reached: "addVideoLayer 1 initialComposer = plainState"
  by (simp add: addVideoLayer_def initialComposer_def plainState_def plainLayer_def snapValue_def
      Let_def show_nat.simps digit_def)

lemma lockedState_E_hit:
  "handleCanvasMouseDown rt 420 70 lockedState =
     lockedState\<lparr>resizingLayer := Some ''video-1'', resizeHandle := Some E,
       dragStart := \<lparr>ptx = 420, pty = 70\<rparr>,
       layerStart := \<lparr>rx = 20, ry = 20, rw = 400, rh = 100\<rparr>\<rparr>"
  by (simp add: handleCanvasMouseDown_def handleHit_def lockedState_def lockedLayer_def
      initialComposer_def truthy_def getHandleAtPoint_def getResizeHandles_def HANDLE_SIZE_def Let_def)

section \<open>The update operation under aspect lock\<close>

text \<open>
  C10. On a video layer whose aspect lock is on (its stored ratio not zero),
  \<^verbatim>\<open>updateLayer\<close> derives the other dimension from the stored ratio only when exactly
  one of width and height is in the update; an update with both stores both as given, and the lock stays as it is unless
  the update sets it. The evaluation after the theorem stores 100 by 300 on a locked
  layer of ratio 4.
\<close>

theorem updateLayer_locked_derivation:
  assumes "findLayer i st = Some l" and "variant l = Video v" and "aspectLocked v"
    and "aspectRatio v \<noteq> 0"
  shows "(case findLayer i (updateLayer i u st) of
            None \<Rightarrow> False
          | Some l' \<Rightarrow>
              (case (set_width u, set_height u) of
                 (Some w, None) \<Rightarrow> videoSize l' = Some (w, of_int (round (w / aspectRatio v)))
               | (None, Some h) \<Rightarrow> videoSize l' = Some (of_int (round (h * aspectRatio v)), h)
               | (Some w, Some h) \<Rightarrow> videoSize l' = Some (w, h)
               | (None, None) \<Rightarrow> videoSize l' = Some (width v, height v))
              \<and> videoLocked l' = orElse (set_aspectLocked u) True)"
proof -
  have "lid l = i"
    using assms(1) unfolding findLayer_def by (auto dest: find_Some_iff[THEN iffD1])
  then have "findLayer i (updateLayer i u st) = Some (updateOne l u)"
    using assms(1) by (simp add: findLayer_updateLayer)
  then show ?thesis
    using updateOne_videoSize[OF assms(2), of u] updateOne_videoLocked[OF assms(2), of u] assms(3)
    by (simp split: option.splits)
qed

theorem updateLayer_locked_derivation_witness:
  "findLayer ''video-1'' lockedState = Some lockedLayer
   \<and> variant lockedLayer = Video \<lparr>width = 400, height = 100, aspectLocked = True, aspectRatio = 4\<rparr>
   \<and> map_option videoSize (findLayer ''video-1''
         (updateLayer ''video-1'' (no_updates\<lparr>set_width := Some 100, set_height := Some 300\<rparr>) lockedState))
       = Some (Some (100, 300))
   \<and> map_option videoLocked (findLayer ''video-1''
         (updateLayer ''video-1'' (no_updates\<lparr>set_width := Some 100, set_height := Some 300\<rparr>) lockedState))
       = Some True
   \<and> (100::real) / 300 \<noteq> 4"
proof -
  have f: "findLayer ''video-1'' lockedState = Some lockedLayer"
    by (simp add: findLayer_def lockedState_def lockedLayer_def)
  have v: "variant lockedLayer = Video \<lparr>width = 400, height = 100, aspectLocked = True, aspectRatio = 4\<rparr>"
    by (simp add: lockedLayer_def)
  have a: "aspectLocked \<lparr>width = 400, height = 100, aspectLocked = True, aspectRatio = 4\<rparr>"
    "aspectRatio \<lparr>width = 400, height = 100, aspectLocked = True, aspectRatio = 4\<rparr> \<noteq> 0"
    by simp_all
  show ?thesis
    using updateLayer_locked_derivation [OF f v a,
        of "no_updates\<lparr>set_width := Some 100, set_height := Some 300\<rparr>"] f v
    by (simp add: no_updates_def orElse_def split: option.splits)
qed

section \<open>Facts about the compiler\<close>

lemma overlayStages_last_label:
  "vl \<noteq> [] \<Longrightarrow> n = idx + length vl \<Longrightarrow> snd (overlayStages n idx cur vl) = ''videos''"
proof (induction vl arbitrary: idx cur)
  case Nil
  then show ?case by simp
next
  case (Cons a vl)
  obtain l v where a: "a = (l, v)" by (cases a)
  show ?case
  proof (cases "vl = []")
    case True
    with Cons.prems a show ?thesis by (simp add: Let_def)
  next
    case False
    with Cons.prems have "n = Suc idx + length vl" by simp
    from Cons.IH[OF False this] a show ?thesis by (simp add: Let_def)
  qed
qed

lemma final_not_scaled: "''final'' \<notin> set (map produces (scaleStages idx vl))"
  by (induction idx vl rule: scaleStages.induct) simp_all

lemma final_not_overlaid: "''final'' \<notin> set (map produces (fst (overlayStages n idx cur vl)))"
  by (induction n idx cur vl rule: overlayStages.induct) (simp_all add: Let_def)

lemma stagesChained_append:
  "stagesChained d (xs @ ys) = (stagesChained d xs \<and> stagesChained (rev (map produces xs) @ d) ys)"
  by (induction xs arbitrary: d) auto

lemma visibleLayers_plain: "visibleLayers [plainLayer] = [plainLayer]"
  by (simp add: visibleLayers_def plainLayer_def)

lemma variant_plainLayer:
  "variant plainLayer = Video \<lparr>width = 340, height = 340, aspectLocked = False, aspectRatio = 1\<rparr>"
  by (simp add: plainLayer_def)

lemma template_plainState: "templateImage plainState = None"
  by (simp add: plainState_def initialComposer_def)

lemma layers_plainState: "layers plainState = [plainLayer]"
  by (simp add: plainState_def)

text \<open>
  With a visible text layer the command is chained: the drawtext loop starts from the
  label the overlay loop left and its last stage writes \<^verbatim>\<open>final\<close>. The indices in the
  video labels are those of the scale stages, so every overlay reads a label that a
  scale stage wrote.
\<close>

lemma overlayStages_chained:
  assumes "cur \<in> set d" and "\<forall>k<length vl. ''v'' @ show_nat (idx + k) \<in> set d"
  shows "stagesChained d (fst (overlayStages n idx cur vl))"
  using assms
proof (induction vl arbitrary: idx cur d)
  case Nil
  then show ?case by simp
next
  case (Cons a vl)
  obtain l v where a: "a = (l, v)" by (cases a)
  define nextBase where "nextBase = (if Suc idx = n then ''videos'' else ''tmp'' @ show_nat idx)"
  have v0: "''v'' @ show_nat idx \<in> set d"
    using Cons.prems(2)[rule_format, of 0] by simp
  have rest: "\<forall>k<length vl. ''v'' @ show_nat (Suc idx + k) \<in> set (nextBase # d)"
    using Cons.prems(2) by auto
  have "stagesChained (nextBase # d) (fst (overlayStages n (Suc idx) nextBase vl))"
    by (rule Cons.IH[OF _ rest]) simp
  then show ?case
    using Cons.prems(1) v0 by (simp add: a Let_def nextBase_def padDefined_def)
qed

lemma overlayStages_label:
  "snd (overlayStages n idx cur vl) \<in> set (cur # map produces (fst (overlayStages n idx cur vl)))"
  by (induction n idx cur vl rule: overlayStages.induct) (auto simp: Let_def)

lemma scaleStages_chained: "stagesChained d (scaleStages idx vl)"
  by (induction idx vl arbitrary: d rule: scaleStages.induct) (simp_all add: padDefined_def)

lemma scaleStages_produces:
  "map produces (scaleStages idx vl) = map (\<lambda>k. ''v'' @ show_nat k) [idx..<idx + length vl]"
proof (induction idx vl rule: scaleStages.induct)
  case (1 idx)
  then show ?case by simp
next
  case (2 idx l v rest)
  have "[idx..<idx + length ((l, v) # rest)] = idx # [Suc idx..<Suc idx + length rest]"
    by (simp add: upt_conv_Cons del: upt_Suc)
  then show ?case
    using 2 by (simp del: upt_Suc)
qed

lemma textStages_chained:
  "cur \<in> set d \<Longrightarrow> stagesChained d (fst (textStages rt n idx cur txl))"
proof (induction txl arbitrary: idx cur d)
  case Nil
  then show ?case by simp
next
  case (Cons a txl)
  obtain l t where a: "a = (l, t)" by (cases a)
  show ?case
    using Cons.prems Cons.IH by (simp add: a Let_def padDefined_def)
qed

lemma textStages_label:
  "txl \<noteq> [] \<Longrightarrow> n = idx + length txl \<Longrightarrow>
     snd (textStages rt n idx cur txl) = ''final''
     \<and> ''final'' \<in> set (map produces (fst (textStages rt n idx cur txl)))"
proof (induction txl arbitrary: idx cur)
  case Nil
  then show ?case by simp
next
  case (Cons a txl)
  obtain l t where a: "a = (l, t)" by (cases a)
  show ?case
  proof (cases "txl = []")
    case True
    with Cons.prems a show ?thesis by (simp add: Let_def)
  next
    case False
    with Cons.prems have "n = Suc idx + length txl" by simp
    from Cons.IH[OF False this] a show ?thesis by (simp add: Let_def)
  qed
qed

lemma text_graph_chained:
  assumes "textLayers (visibleLayers (layers st)) \<noteq> []"
  shows "chained (filterGraph rt st)"
proof -
  define vl where "vl = videoLayers (visibleLayers (layers st))"
  define txl where "txl = textLayers (visibleLayers (layers st))"
  define sc where "sc = scaleStages 0 vl"
  define ov where "ov = overlayStages (length vl) 0 ''base'' vl"
  define tx where "tx = textStages rt (length txl) 0 (snd ov) txl"
  define b where "b = baseStage rt (canvasSize st)"
  define tp where "tp = (if truthy (templateImage st)
          then ([templateStage (snd tx) (length vl)], ''output'') else ([], snd tx))"
  have g: "filterGraph rt st = (b # sc @ fst ov @ fst tx @ fst tp, snd tp)"
    using assms
    by (simp add: filterGraph_def Let_def vl_def txl_def sc_def ov_def tx_def b_def tp_def)
  have pb: "produces b = ''base''" "consumes b = []"
    by (simp_all add: b_def baseStage_def)
  have fin: "snd tx = ''final''" "''final'' \<in> set (map produces (fst tx))"
    using textStages_label[of txl "length txl" 0 rt "snd ov"] assms
    by (simp_all add: tx_def txl_def)
  have c1: "stagesChained [''base''] sc"
    unfolding sc_def by (rule scaleStages_chained)
  have vs: "\<forall>k<length vl. ''v'' @ show_nat (0 + k) \<in> set (rev (map produces sc) @ [''base''])"
    by (simp add: sc_def scaleStages_produces)
  have c2: "stagesChained (rev (map produces sc) @ [''base'']) (fst ov)"
    unfolding ov_def by (rule overlayStages_chained[OF _ vs]) simp
  have cur: "snd ov \<in> set (rev (map produces (fst ov)) @ rev (map produces sc) @ [''base''])"
    using overlayStages_label[of "length vl" 0 "''base''" vl] by (auto simp: ov_def)
  have c3: "stagesChained (rev (map produces (fst ov)) @ rev (map produces sc) @ [''base'']) (fst tx)"
    unfolding tx_def by (rule textStages_chained[OF cur])
  have c4: "stagesChained (rev (map produces (fst tx)) @ rev (map produces (fst ov))
              @ rev (map produces sc) @ [''base'']) (fst tp)"
    using fin by (simp add: tp_def templateStage_def padDefined_def)
  have m: "snd tp \<in> set (map produces (b # sc @ fst ov @ fst tx @ fst tp))"
    using fin by (simp add: tp_def templateStage_def)
  have "stagesChained [] (b # sc @ fst ov @ fst tx @ fst tp)"
    using c1 c2 c3 c4 by (simp add: pb stagesChained_append)
  with m show ?thesis
    unfolding g chained_def by simp
qed

text \<open>The text compiled for one video layer names the label \<^verbatim>\<open>final\<close> after \<^verbatim>\<open>-map\<close>.\<close>

lemma map_final_text:
  "occursIn (''-map '' @ [dquote] @ ''[final]'' @ [dquote]) (commandText exampleRuntime plainState)"
  by code_simp

section \<open>Label chaining of the compiled command\<close>

text \<open>
  C1 asks that every label a stage reads, and the label of \<^verbatim>\<open>-map\<close>, is written by an
  earlier stage. The code does not do so when a video layer is visible and no text layer
  is: the overlay loop leaves the label \<^verbatim>\<open>videos\<close>, the branch for no text layers
  renames it to \<^verbatim>\<open>final\<close> without appending a stage, and no stage writes \<^verbatim>\<open>final\<close>.
  Then \<^verbatim>\<open>-map\<close> (without a template) or the template overlay (with one) reads a
  label that nothing defines. The evaluation after the theorem is the case of one video
  layer and no template. The sibling path, with a visible text layer, is chained
  (\<open>text_graph_chained\<close>).
\<close>

theorem video_only_graph_unchained:
  assumes "videoLayers (visibleLayers (layers st)) \<noteq> []"
    and "textLayers (visibleLayers (layers st)) = []"
  shows "\<not> chained (filterGraph rt st)"
proof -
  define vl where "vl = videoLayers (visibleLayers (layers st))"
  define ov where "ov = overlayStages (length vl) 0 ''base'' vl"
  define pre where "pre = baseStage rt (canvasSize st) # scaleStages 0 vl @ fst ov"
  have last: "snd ov = ''videos''"
    using assms(1) unfolding ov_def vl_def by (simp add: overlayStages_last_label)
  have nf: "''final'' \<notin> set (map produces pre)"
    using final_not_scaled[of 0 vl] final_not_overlaid[of "length vl" 0 "''base''" vl]
    unfolding pre_def ov_def by (simp add: baseStage_def)
  have g: "filterGraph rt st =
      (if truthy (templateImage st) then (pre @ [templateStage ''final'' (length vl)], ''output'')
       else (pre, ''final''))"
    using assms(2) last unfolding pre_def ov_def vl_def
    by (simp add: filterGraph_def Let_def)
  show ?thesis
  proof (cases "truthy (templateImage st)")
    case False
    then show ?thesis
      using nf g by (simp add: chained_def)
  next
    case True
    have "\<not> stagesChained [] (pre @ [templateStage ''final'' (length vl)])"
      using nf by (simp add: stagesChained_append templateStage_def padDefined_def)
    then show ?thesis
      using g True by (simp add: chained_def)
  qed
qed

theorem video_only_graph_unchained_witness:
  "videoLayers (visibleLayers (layers plainState)) \<noteq> []
   \<and> textLayers (visibleLayers (layers plainState)) = []
   \<and> map produces (fst (filterGraph exampleRuntime plainState)) = [''base'', ''v0'', ''videos'']
   \<and> snd (filterGraph exampleRuntime plainState) = ''final''
   \<and> \<not> chained (filterGraph exampleRuntime plainState)"
proof -
  have v: "videoLayers (visibleLayers (layers plainState)) \<noteq> []"
    by (simp add: layers_plainState visibleLayers_plain variant_plainLayer)
  have t: "textLayers (visibleLayers (layers plainState)) = []"
    by (simp add: layers_plainState visibleLayers_plain variant_plainLayer)
  have p: "map produces (fst (filterGraph exampleRuntime plainState)) = [''base'', ''v0'', ''videos'']"
    by (simp add: filterGraph_def layers_plainState visibleLayers_plain variant_plainLayer Let_def
        baseStage_def show_nat.simps digit_def template_plainState truthy_def)
  have m: "snd (filterGraph exampleRuntime plainState) = ''final''"
    by (simp add: filterGraph_def layers_plainState visibleLayers_plain variant_plainLayer Let_def
        template_plainState truthy_def)
  show ?thesis
    using video_only_graph_unchained [OF v t, of exampleRuntime] v t p m by simp
qed

section \<open>Compiling with no visible layer\<close>

text \<open>
  C9. When no layer is visible (the empty list included), whatever the canvas size and
  the template, the compiler stores the placeholder text: it is not a command, and it
  holds no input declaration and no filter graph.
\<close>

theorem no_visible_layer_placeholder:
  assumes "\<forall>l\<in>set (layers st). \<not> visible l"
  shows "ffmpegCommand (generateFFmpegCommand rt st) = ''# Add at least one visible layer first''
       \<and> \<not> occursIn ''ffmpeg'' (ffmpegCommand (generateFFmpegCommand rt st))
       \<and> \<not> occursIn ''-i '' (ffmpegCommand (generateFFmpegCommand rt st))
       \<and> \<not> occursIn ''-filter_complex'' (ffmpegCommand (generateFFmpegCommand rt st))"
proof -
  have "filter visible (layers st) = []"
    using assms by (simp add: filter_empty_conv)
  then have "commandText rt st = placeholder"
    by (simp add: commandText_def visibleLayers_def)
  then show ?thesis
    by (simp add: generateFFmpegCommand_def placeholder_def)
qed

theorem no_visible_layer_placeholder_witness:
  "ffmpegCommand (generateFFmpegCommand exampleRuntime
      (initialComposer\<lparr>layers := [plainLayer\<lparr>visible := False\<rparr>], templateImage := Some ''data:image/png''\<rparr>))
     = ''# Add at least one visible layer first''
   \<and> ffmpegCommand (generateFFmpegCommand exampleRuntime initialComposer)
     = ''# Add at least one visible layer first''"
proof -
  have a: "\<forall>l\<in>set (layers (initialComposer\<lparr>layers := [plainLayer\<lparr>visible := False\<rparr>],
              templateImage := Some ''data:image/png''\<rparr>)). \<not> visible l"
    by simp
  have b: "\<forall>l\<in>set (layers initialComposer). \<not> visible l"
    by (simp add: initialComposer_def)
  show ?thesis
    using no_visible_layer_placeholder [OF a, of exampleRuntime]
      no_visible_layer_placeholder [OF b, of exampleRuntime]
    by simp
qed

section \<open>Hit testing\<close>

lemma twoLayerState_reached: "addVideoLayer 2 plainState = twoLayerState"
  by (simp add: addVideoLayer_def initialComposer_def plainState_def plainLayer_def snapValue_def
      Let_def show_nat.simps digit_def twoLayerState_def secondLayer_def isVideo_def)

lemma isPointInLayer_closed:
  "isPointInLayer rt l px py =
     (case boundingBox rt l of (bx, by, bw, bh) \<Rightarrow>
        bx \<le> px \<and> px \<le> bx + bw \<and> by \<le> py \<and> py \<le> by + bh)"
  by (simp add: isPointInLayer_def boundingBox_def layerSize_def Let_def case_prod_beta
      split: variant.splits)

lemma find_SomeD: "find P xs = Some c \<Longrightarrow> P c \<and> c \<in> set xs"
  by (induction xs) (auto split: if_splits)

lemma find_sorted_topmost:
  assumes "find P (sort_key f xs) = Some c" and "x \<in> set xs" and "P x"
  shows "f c \<le> f x"
proof -
  let ?ys = "sort_key f xs"
  from assms(1) obtain i where i: "i < length ?ys" "c = ?ys ! i" "\<forall>j<i. \<not> P (?ys ! j)"
    unfolding find_Some_iff by blast
  from assms(2) have "x \<in> set ?ys" by simp
  then obtain k where k: "k < length ?ys" "?ys ! k = x"
    by (metis in_set_conv_nth)
  with i(3) assms(3) have "i \<le> k"
    by (metis not_le_imp_less)
  have "sorted (map f ?ys)" by (rule sorted_sort_key)
  then have "map f ?ys ! i \<le> map f ?ys ! k"
    using \<open>i \<le> k\<close> k(1) by (simp add: sorted_iff_nth_mono del: sorted_sort_key)
  then show ?thesis
    using i k \<open>i \<le> k\<close> by simp
qed

text \<open>
  C4, as the code has it. A point is inside a layer iff it lies in the closed box
  \<open>[x, x+w] \<times> [y, y+h]\<close> of the layer's bounding box (both ends included on each axis).
  The lookup on pointer-down goes through the layers in descending \<^verbatim>\<open>zIndex\<close> and returns
  the first visible layer that contains the point: the layer it returns is a visible
  layer of the collection that contains the point and no visible layer containing the
  point has a greater \<^verbatim>\<open>zIndex\<close>; it returns nothing only when no visible layer contains
  the point. An invisible layer is never returned.
\<close>

theorem hit_testing:
  "isPointInLayer rt l px py =
     (case boundingBox rt l of (bx, by, bw, bh) \<Rightarrow>
        bx \<le> px \<and> px \<le> bx + bw \<and> by \<le> py \<and> py \<le> by + bh)
   \<and> sorted_wrt (\<lambda>a b. zIndex b \<le> zIndex a) (sort_key (\<lambda>l. - zIndex l) (layers st))
   \<and> (case clickedLayer rt st px py of
         None \<Rightarrow> (\<forall>k\<in>set (layers st). \<not> (visible k \<and> isPointInLayer rt k px py))
       | Some c \<Rightarrow>
           c \<in> set (layers st) \<and> visible c \<and> isPointInLayer rt c px py
           \<and> (\<forall>k\<in>set (layers st). visible k \<and> isPointInLayer rt k px py \<longrightarrow> zIndex k \<le> zIndex c))"
proof (intro conjI)
  show "isPointInLayer rt l px py =
     (case boundingBox rt l of (bx, by, bw, bh) \<Rightarrow>
        bx \<le> px \<and> px \<le> bx + bw \<and> by \<le> py \<and> py \<le> by + bh)"
    by (rule isPointInLayer_closed)
next
  have "sorted (map (\<lambda>l. - zIndex l) (sort_key (\<lambda>l. - zIndex l) (layers st)))"
    by (rule sorted_sort_key)
  then show "sorted_wrt (\<lambda>a b. zIndex b \<le> zIndex a) (sort_key (\<lambda>l. - zIndex l) (layers st))"
    by (simp add: sorted_map del: sorted_sort_key)
next
  let ?P = "\<lambda>k. visible k \<and> isPointInLayer rt k px py"
  show "case clickedLayer rt st px py of
         None \<Rightarrow> (\<forall>k\<in>set (layers st). \<not> (visible k \<and> isPointInLayer rt k px py))
       | Some c \<Rightarrow>
           c \<in> set (layers st) \<and> visible c \<and> isPointInLayer rt c px py
           \<and> (\<forall>k\<in>set (layers st). visible k \<and> isPointInLayer rt k px py \<longrightarrow> zIndex k \<le> zIndex c)"
  proof (cases "clickedLayer rt st px py")
    case None
    then have "\<forall>k\<in>set (sort_key (\<lambda>l. - zIndex l) (layers st)). \<not> ?P k"
      unfolding clickedLayer_def Let_def find_None_iff by blast
    with None show ?thesis by simp
  next
    case (Some c)
    then have f: "find ?P (sort_key (\<lambda>l. - zIndex l) (layers st)) = Some c"
      by (simp add: clickedLayer_def)
    then have "c \<in> set (sort_key (\<lambda>l. - zIndex l) (layers st))" and "?P c"
      using find_SomeD[OF f] by auto
    moreover have "zIndex k \<le> zIndex c" if "k \<in> set (layers st)" and "?P k" for k
      using find_sorted_topmost[OF f that] by simp
    ultimately show ?thesis
      using Some by auto
  qed
qed

theorem hit_testing_witness:
  "clickedLayer exampleRuntime twoLayerState 100 100 = Some secondLayer
   \<and> visible plainLayer \<and> isPointInLayer exampleRuntime plainLayer 100 100
   \<and> zIndex plainLayer \<le> zIndex secondLayer
   \<and> clickedLayer exampleRuntime twoLayerState 30 30 = Some plainLayer
   \<and> clickedLayer exampleRuntime twoLayerState 400 400 = None"
proof -
  have s: "sort_key (\<lambda>l. - zIndex l) [plainLayer, secondLayer] = [secondLayer, plainLayer]"
    by (simp add: plainLayer_def secondLayer_def)
  have v: "visible plainLayer" "visible secondLayer" "zIndex plainLayer = 1" "zIndex secondLayer = 2"
    by (simp_all add: plainLayer_def secondLayer_def)
  have h: "isPointInLayer exampleRuntime secondLayer 100 100"
    "\<not> isPointInLayer exampleRuntime secondLayer 30 30"
    "isPointInLayer exampleRuntime plainLayer 30 30"
    "\<not> isPointInLayer exampleRuntime secondLayer 400 400"
    "\<not> isPointInLayer exampleRuntime plainLayer 400 400"
    by (simp_all add: isPointInLayer_def secondLayer_def plainLayer_def)
  have c: "clickedLayer exampleRuntime twoLayerState 100 100 = Some secondLayer"
    by (simp add: clickedLayer_def twoLayerState_def s v h)
  have c2: "clickedLayer exampleRuntime twoLayerState 30 30 = Some plainLayer"
    by (simp add: clickedLayer_def twoLayerState_def s v h)
  have c3: "clickedLayer exampleRuntime twoLayerState 400 400 = None"
    by (simp add: clickedLayer_def twoLayerState_def s v h)
  have p: "visible plainLayer \<and> isPointInLayer exampleRuntime plainLayer 100 100"
    by (simp add: isPointInLayer_def plainLayer_def)
  have m: "plainLayer \<in> set (layers twoLayerState)"
    by (simp add: twoLayerState_def)
  have "case clickedLayer exampleRuntime twoLayerState 100 100 of
         None \<Rightarrow> (\<forall>k\<in>set (layers twoLayerState).
                    \<not> (visible k \<and> isPointInLayer exampleRuntime k 100 100))
       | Some c \<Rightarrow>
           c \<in> set (layers twoLayerState) \<and> visible c \<and> isPointInLayer exampleRuntime c 100 100
           \<and> (\<forall>k\<in>set (layers twoLayerState).
                 visible k \<and> isPointInLayer exampleRuntime k 100 100 \<longrightarrow> zIndex k \<le> zIndex c)"
    using hit_testing [of exampleRuntime plainLayer 100 100 twoLayerState] by blast
  then have "\<forall>k\<in>set (layers twoLayerState).
      visible k \<and> isPointInLayer exampleRuntime k 100 100 \<longrightarrow> zIndex k \<le> zIndex secondLayer"
    unfolding c by simp
  then have "zIndex plainLayer \<le> zIndex secondLayer"
    using m p by blast
  then show ?thesis
    using c c2 c3 p by simp
qed

text \<open>
  The half-open reading fails on the right edge: the point with \<open>px = x + w\<close> is inside
  the layer for the code.
\<close>

theorem half_open_counterexample:
  "isPointInLayer exampleRuntime plainLayer 360 100
   \<and> \<not> specPointInLayer exampleRuntime plainLayer 360 100"
  by (simp add: isPointInLayer_def specPointInLayer_def boundingBox_def layerSize_def plainLayer_def)

section \<open>Duplicating a layer\<close>

lemma findLayer_lid: "findLayer i st = Some l \<Longrightarrow> lid l = i \<and> l \<in> set (layers st)"
  unfolding findLayer_def using find_SomeD[of "\<lambda>l. lid l = i" "layers st" l] by simp

lemma zIndex_below_Max: "k \<in> set ls \<Longrightarrow> zIndex k < Max (set (map zIndex ls)) + 1"
proof -
  assume "k \<in> set ls"
  then have "zIndex k \<le> Max (set (map zIndex ls))"
    by (intro Max_ge) simp_all
  then show ?thesis by simp
qed

text \<open>
  What duplication does in every state: it appends one layer and changes no other; the
  new layer has the id made of the type, a dash and the reading of the clock, the name
  followed by \<^verbatim>\<open> (copy)\<close>, the position \<open>snap (min (x + 30) (canvas.width - 100))\<close> (the
  sum and the difference rounded) and likewise for \<open>y\<close>, and a \<^verbatim>\<open>zIndex\<close> above every layer that was there.
\<close>

lemma duplicateLayer_shape:
  assumes "findLayer i st = Some l"
  shows "butlast (layers (duplicateLayer now i st)) = layers st
       \<and> length (layers (duplicateLayer now i st)) = Suc (length (layers st))
       \<and> lid (last (layers (duplicateLayer now i st))) = typeName (variant l) @ ''-'' @ show_nat now
       \<and> name (last (layers (duplicateLayer now i st))) = name l @ '' (copy)''
       \<and> posx (last (layers (duplicateLayer now i st)))
           = snapValue st (min (fl (posx l + 30)) (fl (canvasWidth (canvasSize st) - 100)))
       \<and> posy (last (layers (duplicateLayer now i st)))
           = snapValue st (min (fl (posy l + 30)) (fl (canvasHeight (canvasSize st) - 100)))
       \<and> visible (last (layers (duplicateLayer now i st))) = visible l
       \<and> variant (last (layers (duplicateLayer now i st))) = variant l
       \<and> (\<forall>k\<in>set (layers st). zIndex k < zIndex (last (layers (duplicateLayer now i st))))"
proof -
  have f: "find (\<lambda>l. lid l = i) (layers st) = Some l"
    using assms(1) by (simp add: findLayer_def)
  show ?thesis
    by (simp add: duplicateLayer_def f Let_def zIndex_below_Max)
qed

text \<open>
  C6 asks that the new id differs from every id of the collection. The code builds the
  id from the layer's type and \<^verbatim>\<open>Date.now()\<close> alone and does not look at the
  collection: when the layer being duplicated got its id at the same reading of the clock
  (it was added, or itself duplicated, within the same millisecond, or the clock was set
  back), the copy gets the id of its original, and the ids of the collection are no
  longer distinct.
\<close>

theorem duplicate_repeats_id:
  assumes "findLayer i st = Some l"
    and "lid l = typeName (variant l) @ ''-'' @ show_nat now"
  shows "lid (last (layers (duplicateLayer now i st))) = i
       \<and> lid (last (layers (duplicateLayer now i st))) \<in> set (map lid (layers st))
       \<and> \<not> distinct (map lid (layers (duplicateLayer now i st)))"
proof -
  have f: "find (\<lambda>l. lid l = i) (layers st) = Some l"
    using assms(1) by (simp add: findLayer_def)
  have i: "lid l = i" "l \<in> set (layers st)"
    using findLayer_lid[OF assms(1)] by simp_all
  obtain x where x: "layers (duplicateLayer now i st) = layers st @ [x]"
    and xi: "lid x = typeName (variant l) @ ''-'' @ show_nat now"
    unfolding duplicateLayer_def f by (simp add: Let_def)
  have n: "lid x = i"
    using xi assms(2) i(1) by simp
  have m: "i \<in> set (map lid (layers st))"
    using i by force
  show ?thesis
    unfolding x using n m by simp
qed

theorem duplicate_repeats_id_witness:
  "findLayer ''video-1'' plainState = Some plainLayer
   \<and> lid plainLayer = typeName (variant plainLayer) @ ''-'' @ show_nat 1
   \<and> lid (last (layers (duplicateLayer 1 ''video-1'' plainState))) = ''video-1''
   \<and> map lid (layers plainState) = [''video-1'']"
proof -
  have f: "findLayer ''video-1'' plainState = Some plainLayer"
    by (simp add: findLayer_def plainState_def plainLayer_def)
  have n: "lid plainLayer = typeName (variant plainLayer) @ ''-'' @ show_nat 1"
    by (simp add: typeName_def plainLayer_def show_nat.simps digit_def)
  have l: "map lid (layers plainState) = [''video-1'']"
    by (simp add: layers_plainState plainLayer_facts)
  from duplicate_repeats_id [OF f n]
  have "lid (last (layers (duplicateLayer 1 ''video-1'' plainState))) = ''video-1''"
    by (rule conjunct1)
  then show ?thesis
    using f n l by simp
qed

section \<open>Drag and resize\<close>

lemma handleCanvasMouseMove_drag:
  assumes "\<not> truthy (resizingLayer st) \<or> resizeHandle st = None"
    and "draggingLayer st = Some i" and "i \<noteq> []" and "findLayer i st = Some l"
  shows "handleCanvasMouseMove rt px py st = updateLayer i (dragUpdates rt st l px py) st"
proof -
  have "lid l = i"
    using assms(4) by (simp add: findLayer_lid)
  moreover have "(if truthy (resizingLayer st) then resizeHandle st else None) = None"
    using assms(1) by auto
  ultimately show ?thesis
    using assms(2-4) by (simp add: handleCanvasMouseMove_def truthy_def findLayer_def)
qed

lemma dragUpdates_fields:
  "set_x (dragUpdates rt st l px py) =
     Some (snapValue st (max 0 (min (fl (canvasWidth (canvasSize st) - fst (layerSize rt l)))
        (fl (px - ptx (dragStart st))))))"
  "set_y (dragUpdates rt st l px py) =
     Some (snapValue st (max 0 (min (fl (canvasHeight (canvasSize st) - snd (layerSize rt l)))
        (fl (py - pty (dragStart st))))))"
  "set_width (dragUpdates rt st l px py) = None"
  "set_height (dragUpdates rt st l px py) = None"
  "set_aspectLocked (dragUpdates rt st l px py) = None"
  "set_aspectRatio (dragUpdates rt st l px py) = None"
  "set_text (dragUpdates rt st l px py) = None"
  "set_fontSize (dragUpdates rt st l px py) = None"
  "set_fontFamily (dragUpdates rt st l px py) = None"
  "set_color (dragUpdates rt st l px py) = None"
  "set_bold (dragUpdates rt st l px py) = None"
  "set_italic (dragUpdates rt st l px py) = None"
  by (simp_all add: dragUpdates_def Let_def no_updates_def)

lemma updateOne_pos:
  "posx (updateOne l u) = orElse (set_x u) (posx l)"
  "posy (updateOne l u) = orElse (set_y u) (posy l)"
  by (simp_all add: updateOne_def Let_def spread_def split: variant.splits prod.splits option.splits)

lemma updateOne_keeps_variant:
  assumes "set_width u = None" "set_height u = None" "set_aspectLocked u = None"
    "set_aspectRatio u = None" "set_text u = None" "set_fontSize u = None"
    "set_fontFamily u = None" "set_color u = None" "set_bold u = None" "set_italic u = None"
  shows "variant (updateOne l u) = variant l"
  using assms
  by (cases "variant l") (simp_all add: updateOne_def Let_def spread_def orElse_def)

lemma drag_box:
  assumes "\<not> truthy (resizingLayer st) \<or> resizeHandle st = None"
    and "draggingLayer st = Some i" and "i \<noteq> []" and "findLayer i st = Some l"
  shows "map_option (boundingBox rt) (findLayer i (handleCanvasMouseMove rt px py st)) =
     Some (snapValue st (max 0 (min (fl (canvasWidth (canvasSize st) - fst (layerSize rt l)))
              (fl (px - ptx (dragStart st))))),
           snapValue st (max 0 (min (fl (canvasHeight (canvasSize st) - snd (layerSize rt l)))
              (fl (py - pty (dragStart st))))),
           fst (layerSize rt l), snd (layerSize rt l))"
proof -
  have i: "lid l = i"
    using assms(4) by (simp add: findLayer_lid)
  have v: "variant (updateOne l (dragUpdates rt st l px py)) = variant l"
    by (rule updateOne_keeps_variant) (simp_all add: dragUpdates_fields)
  show ?thesis
    using assms(4) i
    by (simp add: handleCanvasMouseMove_drag[OF assms] findLayer_updateLayer boundingBox_def
        layerSize_def v updateOne_pos dragUpdates_fields orElse_def)
qed


lemma resize_box:
  assumes "resizingLayer st = Some i" and "i \<noteq> []" and "resizeHandle st = Some h"
    and "findLayer i st = Some l" and "variant l = Video v"
  shows "map_option (boundingBox rt) (findLayer i (handleCanvasMouseMove rt px py st)) =
     (let g = resizeGeometry h v (layerStart st)
                (fl (px - ptx (dragStart st))) (fl (py - pty (dragStart st)))
      in Some (snapValue st (max 0 (min (fl (canvasWidth (canvasSize st) - rw g)) (rx g))),
               snapValue st (max 0 (min (fl (canvasHeight (canvasSize st) - rh g)) (ry g))),
               snapValue st (rw g), snapValue st (rh g)))"
proof -
  let ?g = "resizeGeometry h v (layerStart st)
              (fl (px - ptx (dragStart st))) (fl (py - pty (dragStart st)))"
  have s: "videoSize (updateOne l (resizeUpdates st h v px py))
             = Some (snapValue st (rw ?g), snapValue st (rh ?g))"
    by (simp add: updateOne_videoSize[OF assms(5)] resizeUpdates_fields)
  then have "layerSize rt (updateOne l (resizeUpdates st h v px py))
             = (snapValue st (rw ?g), snapValue st (rh ?g))"
    by (auto simp: videoSize_def layerSize_def split: variant.splits)
  then show ?thesis
    by (simp add: findLayer_resize[OF assms] boundingBox_def updateOne_pos resizeUpdates_fields
        orElse_def Let_def)
qed




lemma draggingState_reached:
  "handleCanvasMouseDown exampleRuntime 30 30 plainState = draggingState"
proof -
  have "handleHit plainState 30 30 = None"
    by (simp add: handleHit_def plainState_def plainLayer_def truthy_def getHandleAtPoint_def
        getResizeHandles_def HANDLE_SIZE_def Let_def)
  moreover have "clickedLayer exampleRuntime plainState 30 30 = Some plainLayer"
    by (simp add: clickedLayer_def layers_plainState) (simp add: plainLayer_def isPointInLayer_def)
  moreover have "posx plainLayer = 20" "posy plainLayer = 20" "lid plainLayer = ''video-1''"
    by (simp_all add: plainLayer_def)
  ultimately show ?thesis
    by (simp add: handleCanvasMouseDown_def draggingState_def plainState_def)
qed

lemma resizingState_reached:
  "handleCanvasMouseDown rt 420 70 lockedState = resizingState lockedLayer E 420 70"
  unfolding lockedState_E_hit resizingState_def
  by (simp add: lockedState_def lockedLayer_def)

lemma resizingState_facts:
  "resizingLayer ((resizingState l h px py)\<lparr>snapToGrid := b, gridSize := k\<rparr>) = Some (lid l)"
  "resizeHandle ((resizingState l h px py)\<lparr>snapToGrid := b, gridSize := k\<rparr>) = Some h"
  "findLayer (lid l) ((resizingState l h px py)\<lparr>snapToGrid := b, gridSize := k\<rparr>) = Some l"
  "resizingLayer (resizingState l h px py) = Some (lid l)"
  "resizeHandle (resizingState l h px py) = Some h"
  "findLayer (lid l) (resizingState l h px py) = Some l"
  "dragStart (resizingState l h px py) = \<lparr>ptx = px, pty = py\<rparr>"
  "canvasSize (resizingState l h px py) = \<lparr>canvasWidth = 504, canvasHeight = 846\<rparr>"
  "\<not> snapToGrid (resizingState l h px py)"
  "gridSize (resizingState l h px py) = 20"
  "dragStart ((resizingState l h px py)\<lparr>snapToGrid := b, gridSize := k\<rparr>) = \<lparr>ptx = px, pty = py\<rparr>"
  "snapToGrid ((resizingState l h px py)\<lparr>snapToGrid := b, gridSize := k\<rparr>) = b"
  "gridSize ((resizingState l h px py)\<lparr>snapToGrid := b, gridSize := k\<rparr>) = k"
  by (simp_all add: resizingState_def findLayer_def initialComposer_def)

lemma layerStart_locked:
  "layerStart ((resizingState lockedLayer h px py)\<lparr>snapToGrid := b, gridSize := k\<rparr>)
     = \<lparr>rx = 20, ry = 20, rw = 400, rh = 100\<rparr>"
  "layerStart (resizingState lockedLayer h px py) = \<lparr>rx = 20, ry = 20, rw = 400, rh = 100\<rparr>"
  by (simp_all add: resizingState_def lockedLayer_def)



lemma lockedState_S_hit:
  "handleCanvasMouseDown rt 220 120 lockedState = resizingState lockedLayer S 220 120"
  by (simp add: handleCanvasMouseDown_def handleHit_def lockedState_def lockedLayer_def
      initialComposer_def truthy_def getHandleAtPoint_def getResizeHandles_def HANDLE_SIZE_def
      Let_def resizingState_def)

lemma wideState_E_hit:
  "handleCanvasMouseDown rt 370 45
      (initialComposer\<lparr>layers := [wideLayer], selectedLayer := Some ''video-1''\<rparr>)
     = resizingState wideLayer E 370 45"
  by (simp add: handleCanvasMouseDown_def handleHit_def wideLayer_def
      initialComposer_def truthy_def getHandleAtPoint_def getResizeHandles_def HANDLE_SIZE_def
      Let_def resizingState_def)

text \<open>
  What the constraint of the pointer-move does give: with a positive grid size the
  stored \<open>x\<close> and \<open>y\<close> are not negative.
\<close>

lemma pointer_move_nonneg:
  assumes "findLayer i st = Some l" and "0 < gridSize st"
    and "(resizingLayer st = Some i \<and> i \<noteq> [] \<and> resizeHandle st = Some h \<and> variant l = Video v)
       \<or> ((\<not> truthy (resizingLayer st) \<or> resizeHandle st = None)
           \<and> draggingLayer st = Some i \<and> i \<noteq> [])"
  shows "(case map_option (boundingBox rt) (findLayer i (handleCanvasMouseMove rt px py st)) of
            None \<Rightarrow> False
          | Some (bx, by, bw, bh) \<Rightarrow> 0 \<le> bx \<and> 0 \<le> by)"
  using assms(3)
proof
  assume r: "resizingLayer st = Some i \<and> i \<noteq> [] \<and> resizeHandle st = Some h \<and> variant l = Video v"
  then have v: "variant l = Video v" by simp
  from r have r': "resizingLayer st = Some i" "i \<noteq> []" "resizeHandle st = Some h" by simp_all
  show ?thesis
    unfolding resize_box[OF r' assms(1) v] Let_def
    by (simp add: snapValue_nonneg[OF assms(2)])
next
  assume d: "(\<not> truthy (resizingLayer st) \<or> resizeHandle st = None)
           \<and> draggingLayer st = Some i \<and> i \<noteq> []"
  then have d': "\<not> truthy (resizingLayer st) \<or> resizeHandle st = None"
    "draggingLayer st = Some i" "i \<noteq> []" by simp_all
  show ?thesis
    unfolding drag_box[OF d' assms(1)]
    by (simp add: snapValue_nonneg[OF assms(2)])
qed

text \<open>
  C2 asks that after every drag and resize pointer-move the bounding box lies inside the
  canvas. The code constrains the position only (\<^verbatim>\<open>// Constrain to canvas bounds\<close>:
  \<^verbatim>\<open>Math.max(0, Math.min(canvasSize.width - newWidth, newX))\<close>) and snaps after it has
  constrained. Two pointer-moves inside the 504 by 846 canvas leave it. The 400 by 100
  layer locked at ratio 4, resized by its handle s from (220, 120) to (220, 300), gets
  the height 280 and the derived width 1120. The 340 wide layer dragged to the right
  with a grid of 24 is constrained to \<open>x = 164\<close> and snapped to 168, so its right edge
  is at 508.
\<close>

theorem pointer_move_leaves_canvas:
  "map_option (boundingBox exampleRuntime)
      (findLayer ''video-1'' (handleCanvasMouseMove exampleRuntime 220 300
         (resizingState lockedLayer S 220 120)))
     = Some (0, 20, 1120, 280)
   \<and> map_option (withinCanvas exampleRuntime \<lparr>canvasWidth = 504, canvasHeight = 846\<rparr>)
      (findLayer ''video-1'' (handleCanvasMouseMove exampleRuntime 220 300
         (resizingState lockedLayer S 220 120)))
     = Some False
   \<and> map_option (boundingBox exampleRuntime)
      (findLayer ''video-1'' (handleCanvasMouseMove exampleRuntime 500 30
         (draggingState\<lparr>snapToGrid := True, gridSize := 24\<rparr>)))
     = Some (168, 24, 340, 340)
   \<and> map_option (withinCanvas exampleRuntime \<lparr>canvasWidth = 504, canvasHeight = 846\<rparr>)
      (findLayer ''video-1'' (handleCanvasMouseMove exampleRuntime 500 30
         (draggingState\<lparr>snapToGrid := True, gridSize := 24\<rparr>)))
     = Some False"
proof -
  let ?r = "resizingState lockedLayer S 220 120"
  let ?d = "draggingState\<lparr>snapToGrid := True, gridSize := 24\<rparr>"
  have r: "resizingLayer ?r = Some ''video-1''" "''video-1'' \<noteq> []" "resizeHandle ?r = Some S"
    "findLayer ''video-1'' ?r = Some lockedLayer"
    using resizingState_facts(4-6)[where l = lockedLayer and h = S and px = 220 and py = 120]
    by (simp_all add: lockedLayer_facts)
  have rb: "map_option (boundingBox exampleRuntime)
      (findLayer ''video-1'' (handleCanvasMouseMove exampleRuntime 220 300 ?r))
     = Some (0, 20, 1120, 280)"
    unfolding resize_box[OF r lockedLayer_facts(4)]
    by (simp add: resizingState_facts layerStart_locked snapValue_off MIN_SIZE_def Let_def)
  have d: "\<not> truthy (resizingLayer ?d) \<or> resizeHandle ?d = None"
    "draggingLayer ?d = Some ''video-1''" "''video-1'' \<noteq> []"
    "findLayer ''video-1'' ?d = Some plainLayer"
    by (simp_all add: draggingState_def plainState_def initialComposer_def findLayer_def plainLayer_facts)
  have db: "map_option (boundingBox exampleRuntime)
      (findLayer ''video-1'' (handleCanvasMouseMove exampleRuntime 500 30 ?d))
     = Some (168, 24, 340, 340)"
    unfolding drag_box[OF d]
    by (simp add: draggingState_def plainState_def initialComposer_def snapValue_def layerSize_def
        variant_plainLayer round_fl_examples)
  have w: "map_option (withinCanvas rt cs) x
             = map_option (\<lambda>(bx, by, bw, bh). 0 \<le> bx \<and> 0 \<le> by \<and> bx + bw \<le> canvasWidth cs
                  \<and> by + bh \<le> canvasHeight cs) (map_option (boundingBox rt) x)" for rt cs x
    by (cases x) (simp_all add: withinCanvas_def)
  show ?thesis
    unfolding w rb db by simp
qed







section \<open>Raise and lower\<close>

lemma moveLayerUp_moveBy: "moveLayerUp i st = moveBy (\<lambda>z. z) i st"
  by (simp add: moveLayerUp_def moveBy_def cong: option.case_cong list.case_cong)

lemma moveLayerDown_moveBy: "moveLayerDown i st = moveBy (\<lambda>z. - z) i st"
  by (simp add: moveLayerDown_def moveBy_def cong: option.case_cong list.case_cong)

lemma pick_least:
  fixes key :: "int \<Rightarrow> int"
  shows "foldl (\<lambda>m l. if key (zIndex l) < key (zIndex m) then l else m) h hs \<in> set (h # hs)
   \<and> (\<forall>k\<in>set (h # hs).
         key (zIndex (foldl (\<lambda>m l. if key (zIndex l) < key (zIndex m) then l else m) h hs))
           \<le> key (zIndex k))"
proof (induction hs arbitrary: h)
  case Nil
  then show ?case by simp
next
  case (Cons a hs)
  let ?h' = "if key (zIndex a) < key (zIndex h) then a else h"
  have "key (zIndex ?h') \<le> key (zIndex h)" "key (zIndex ?h') \<le> key (zIndex a)" "?h' \<in> {a, h}"
    by auto
  with Cons.IH[of ?h'] show ?case
    by (auto simp del: if_split split: if_split_asm) 
qed

lemma moveBy_step:
  assumes "find (\<lambda>l. lid l = i) (layers st) = Some t"
    and "filter (\<lambda>l. key (zIndex l) > key (zIndex t)) (layers st) = h # hs"
    and "n = foldl (\<lambda>m l. if key (zIndex l) < key (zIndex m) then l else m) h hs"
  shows "moveBy key i st = st\<lparr>layers := map (swapZ i t n) (layers st)\<rparr>"
    and "n \<in> set (layers st)"
    and "key (zIndex t) < key (zIndex n)"
    and "\<forall>k\<in>set (layers st). key (zIndex t) < key (zIndex k) \<longrightarrow> key (zIndex n) \<le> key (zIndex k)"
proof -
  show "moveBy key i st = st\<lparr>layers := map (swapZ i t n) (layers st)\<rparr>"
    using assms by (simp add: moveBy_def swapZ_def[abs_def] Let_def)
  have s: "set (h # hs) = {l \<in> set (layers st). key (zIndex t) < key (zIndex l)}"
    using assms(2) by (metis set_filter)
  have n: "n \<in> set (h # hs)" and m: "\<forall>k\<in>set (h # hs). key (zIndex n) \<le> key (zIndex k)"
    using pick_least[of key h hs] assms(3) by simp_all
  from n s show "n \<in> set (layers st)" "key (zIndex t) < key (zIndex n)" by auto
  from m s show "\<forall>k\<in>set (layers st). key (zIndex t) < key (zIndex k) \<longrightarrow> key (zIndex n) \<le> key (zIndex k)"
    by auto
qed

lemma moveBy_char:
  assumes "find (\<lambda>l. lid l = i) (layers st) = Some t" and "inj key"
    and "distinct (map zIndex (layers st))"
    and "n \<in> set (layers st)" and "key (zIndex t) < key (zIndex n)"
    and "\<forall>k\<in>set (layers st). key (zIndex t) < key (zIndex k) \<longrightarrow> key (zIndex n) \<le> key (zIndex k)"
  shows "moveBy key i st = st\<lparr>layers := map (swapZ i t n) (layers st)\<rparr>"
proof -
  have "n \<in> set (filter (\<lambda>l. key (zIndex l) > key (zIndex t)) (layers st))"
    using assms(4,5) by simp
  then obtain h hs where f: "filter (\<lambda>l. key (zIndex l) > key (zIndex t)) (layers st) = h # hs"
    by (cases "filter (\<lambda>l. key (zIndex l) > key (zIndex t)) (layers st)") auto
  define x where "x = foldl (\<lambda>m l. if key (zIndex l) < key (zIndex m) then l else m) h hs"
  note st = moveBy_step[OF assms(1) f x_def]
  have "key (zIndex x) \<le> key (zIndex n)"
    using st(4) assms(4,5) by blast
  moreover have "key (zIndex n) \<le> key (zIndex x)"
    using assms(6) st(2,3) by blast
  ultimately have "zIndex x = zIndex n"
    using assms(2) by (simp add: inj_eq order_antisym)
  then have "x = n"
    using assms(3,4) st(2) by (auto simp: distinct_map dest: inj_onD)
  with st(1) show ?thesis by simp
qed

lemma moveBy_top:
  assumes "find (\<lambda>l. lid l = i) (layers st) = Some t"
    and "\<forall>k\<in>set (layers st). key (zIndex k) \<le> key (zIndex t)"
  shows "moveBy key i st = st"
proof -
  have "filter (\<lambda>l. key (zIndex l) > key (zIndex t)) (layers st) = []"
    using assms(2) by (auto simp: filter_empty_conv)
  then show ?thesis
    using assms(1) by (simp add: moveBy_def)
qed

lemma moveBy_inverse:
  assumes dz: "distinct (map zIndex (layers st))" and di: "distinct (map lid (layers st))"
    and f: "find (\<lambda>l. lid l = i) (layers st) = Some t" and inj: "inj key"
    and above: "\<exists>k\<in>set (layers st). key (zIndex t) < key (zIndex k)"
  shows "moveBy (\<lambda>z. - key z) i (moveBy key i st) = st"
proof -
  let ?ls = "layers st"
  from above have "filter (\<lambda>l. key (zIndex l) > key (zIndex t)) ?ls \<noteq> []"
    by (auto simp: filter_empty_conv)
  then obtain h hs where hs: "filter (\<lambda>l. key (zIndex l) > key (zIndex t)) ?ls = h # hs"
    by (cases "filter (\<lambda>l. key (zIndex l) > key (zIndex t)) ?ls") auto
  define n where "n = foldl (\<lambda>m l. if key (zIndex l) < key (zIndex m) then l else m) h hs"
  note st = moveBy_step[OF f hs n_def]
  have t: "t \<in> set ?ls" "lid t = i"
    using find_SomeD[OF f] by simp_all
  have ids: "lid a = lid b \<longleftrightarrow> a = b" if "a \<in> set ?ls" "b \<in> set ?ls" for a b
    using di that by (auto simp: distinct_map inj_on_eq_iff)
  have zs: "zIndex a = zIndex b \<longleftrightarrow> a = b" if "a \<in> set ?ls" "b \<in> set ?ls" for a b
    using dz that by (auto simp: distinct_map inj_on_eq_iff)
  have nt: "n \<noteq> t" using st(3) by auto
  then have nid: "lid n \<noteq> i" using ids[OF st(2) t(1)] t(2) by simp
  let ?f = "swapZ i t n"
  let ?st' = "st\<lparr>layers := map ?f ?ls\<rparr>"
  have lidf: "lid (?f l) = lid l" for l by (simp add: swapZ_def)
  have ft: "?f t = t\<lparr>zIndex := zIndex n\<rparr>" using t by (simp add: swapZ_def)
  have fn: "?f n = n\<lparr>zIndex := zIndex t\<rparr>" using nid by (simp add: swapZ_def)
  have fo: "?f l = l" if "l \<in> set ?ls" "l \<noteq> t" "l \<noteq> n" for l
    using that ids[OF that(1) t(1)] ids[OF that(1) st(2)] t(2) by (simp add: swapZ_def)
  have zf: "zIndex (?f l) = (if zIndex l = zIndex t then zIndex n
                              else if zIndex l = zIndex n then zIndex t else zIndex l)"
    if "l \<in> set ?ls" for l
  proof (cases "l = t")
    case True then show ?thesis using ft by simp
  next
    case False
    show ?thesis
    proof (cases "l = n")
      case True then show ?thesis using fn nt zs[OF st(2) t(1)] by simp
    next
      case False
      with \<open>l \<noteq> t\<close> show ?thesis
        using fo[OF that] zs[OF that t(1)] zs[OF that st(2)] by simp
    qed
  qed
  have f': "find (\<lambda>l. lid l = i) (layers ?st') = Some (?f t)"
    using f by (simp add: find_map_lid[of ?f, OF lidf])
  have inj': "inj (\<lambda>z. - key z)"
    using inj by (simp add: inj_def)
  define sigma where
    "sigma = (\<lambda>z. if z = zIndex t then zIndex n else if z = zIndex n then zIndex t else z)"
  define zl where "zl = map zIndex ?ls"
  have "map zIndex (map ?f ?ls) = map sigma zl"
    using zf by (simp add: sigma_def zl_def)
  moreover have "inj sigma"
    by (auto simp: inj_def sigma_def)
  then have "inj_on sigma (set zl)"
    by (rule inj_on_subset) simp
  then have "distinct (map sigma zl)"
    using dz by (simp add: distinct_map zl_def[symmetric])
  ultimately have dz': "distinct (map zIndex (layers ?st'))"
    by simp
  have n': "?f n \<in> set (layers ?st')"
    using st(2) by simp
  have lt': "- key (zIndex (?f t)) < - key (zIndex (?f n))"
    using st(3) ft fn by simp
  have least': "\<forall>k\<in>set (layers ?st').
      - key (zIndex (?f t)) < - key (zIndex k) \<longrightarrow> - key (zIndex (?f n)) \<le> - key (zIndex k)"
  proof
    fix k assume "k \<in> set (layers ?st')"
    then obtain l where l: "l \<in> set ?ls" "k = ?f l" by auto
    show "- key (zIndex (?f t)) < - key (zIndex k) \<longrightarrow> - key (zIndex (?f n)) \<le> - key (zIndex k)"
    proof (cases "l = t \<or> l = n")
      case True
      then show ?thesis using l ft fn by auto
    next
      case False
      then have "k = l" using l fo by simp
      moreover have "key (zIndex l) < key (zIndex n) \<Longrightarrow> key (zIndex l) \<le> key (zIndex t)"
        using st(4) l(1) by force
      ultimately show ?thesis using ft fn by simp
    qed
  qed
  have "moveBy (\<lambda>z. - key z) i ?st' = ?st'\<lparr>layers := map (swapZ i (?f t) (?f n)) (layers ?st')\<rparr>"
    by (rule moveBy_char[OF f' inj' dz' n' lt' least'])
  moreover have "map (swapZ i (?f t) (?f n)) (map ?f ?ls) = ?ls"
  proof -
    have "swapZ i (?f t) (?f n) (?f l) = l" if "l \<in> set ?ls" for l
    proof (cases "l = t")
      case True
      then show ?thesis using t ft fn by (simp add: swapZ_def)
    next
      case False
      then have li: "lid l \<noteq> i" using ids[OF that t(1)] t(2) by simp
      show ?thesis
      proof (cases "l = n")
        case True
        then show ?thesis using fn nid ft by (simp add: swapZ_def)
      next
        case False
        then have "lid l \<noteq> lid n" using ids[OF that st(2)] by simp
        with li show ?thesis by (simp add: swapZ_def)
      qed
    qed
    then show ?thesis by (simp add: map_idI)
  qed
  ultimately show ?thesis
    using st(1) by simp
qed

lemma twoLayerState_facts:
  "layers twoLayerState = [plainLayer, secondLayer]"
  "lid plainLayer = ''video-1''" "lid secondLayer = ''video-2''"
  "zIndex plainLayer = 1" "zIndex secondLayer = 2"
  by (simp_all add: twoLayerState_def plainLayer_def secondLayer_def)

lemma raise_first: "map zIndex (layers (moveLayerUp ''video-1'' twoLayerState)) = [2, 1]"
  by (simp add: moveLayerUp_def twoLayerState_facts)

lemma raise_top: "moveLayerUp ''video-2'' twoLayerState = twoLayerState"
  by (simp add: moveLayerUp_def twoLayerState_facts)

lemma lower_top: "map zIndex (layers (moveLayerDown ''video-2'' twoLayerState)) = [2, 1]"
  by (simp add: moveLayerDown_def twoLayerState_facts)

text \<open>
  C7, as the code has it. In a collection with pairwise distinct \<^verbatim>\<open>zIndex\<close> values and
  pairwise distinct ids, for the id of a layer of the collection: raise then lower gives
  the collection back when some layer lies above the target (the raise moved it); lower
  then raise gives it back when some layer lies below the target; raise alone changes
  nothing when the target is topmost, and lower alone changes nothing when it is
  bottommost.
\<close>

theorem raise_lower_inverse:
  assumes "distinct (map zIndex (layers st))" and "distinct (map lid (layers st))"
    and "findLayer i st = Some l"
  shows "((\<exists>k\<in>set (layers st). zIndex l < zIndex k) \<longrightarrow> moveLayerDown i (moveLayerUp i st) = st)
       \<and> ((\<exists>k\<in>set (layers st). zIndex k < zIndex l) \<longrightarrow> moveLayerUp i (moveLayerDown i st) = st)
       \<and> ((\<forall>k\<in>set (layers st). zIndex k \<le> zIndex l) \<longrightarrow> moveLayerUp i st = st)
       \<and> ((\<forall>k\<in>set (layers st). zIndex l \<le> zIndex k) \<longrightarrow> moveLayerDown i st = st)"
proof -
  have f: "find (\<lambda>l. lid l = i) (layers st) = Some l"
    using assms(3) by (simp add: findLayer_def)
  have 1: "moveLayerDown i (moveLayerUp i st) = st" if "\<exists>k\<in>set (layers st). zIndex l < zIndex k"
    using moveBy_inverse[OF assms(1,2) f, of "\<lambda>z. z"] that
    by (simp add: moveLayerUp_moveBy moveLayerDown_moveBy)
  have 2: "moveLayerUp i (moveLayerDown i st) = st" if "\<exists>k\<in>set (layers st). zIndex k < zIndex l"
    using moveBy_inverse[OF assms(1,2) f, of "\<lambda>z. - z"] that
    by (simp add: moveLayerUp_moveBy moveLayerDown_moveBy)
  have 3: "moveLayerUp i st = st" if "\<forall>k\<in>set (layers st). zIndex k \<le> zIndex l"
    using moveBy_top[OF f, of "\<lambda>z. z"] that by (simp add: moveLayerUp_moveBy)
  have 4: "moveLayerDown i st = st" if "\<forall>k\<in>set (layers st). zIndex l \<le> zIndex k"
    using moveBy_top[OF f, of "\<lambda>z. - z"] that by (simp add: moveLayerDown_moveBy)
  from 1 2 3 4 show ?thesis by blast
qed

theorem raise_lower_inverse_witness:
  "distinct (map zIndex (layers twoLayerState))
   \<and> distinct (map lid (layers twoLayerState))
   \<and> findLayer ''video-1'' twoLayerState = Some plainLayer
   \<and> map zIndex (layers (moveLayerUp ''video-1'' twoLayerState)) = [2, 1]
   \<and> moveLayerDown ''video-1'' (moveLayerUp ''video-1'' twoLayerState) = twoLayerState
   \<and> moveLayerDown ''video-1'' twoLayerState = twoLayerState"
proof -
  have dz: "distinct (map zIndex (layers twoLayerState))"
    by (simp add: twoLayerState_facts)
  have di: "distinct (map lid (layers twoLayerState))"
    by (simp add: twoLayerState_facts)
  have f: "findLayer ''video-1'' twoLayerState = Some plainLayer"
    by (simp add: findLayer_def twoLayerState_facts)
  have above: "\<exists>k\<in>set (layers twoLayerState). zIndex plainLayer < zIndex k"
    by (simp add: twoLayerState_facts)
  have bottom: "\<forall>k\<in>set (layers twoLayerState). zIndex plainLayer \<le> zIndex k"
    by (simp add: twoLayerState_facts)
  from raise_lower_inverse [OF dz di f] above bottom
  have "moveLayerDown ''video-1'' (moveLayerUp ''video-1'' twoLayerState) = twoLayerState"
    and "moveLayerDown ''video-1'' twoLayerState = twoLayerState"
    by blast+
  then show ?thesis
    using dz di f raise_first by simp
qed

text \<open>
  For a topmost target the round trip does not give the order back: the raise does
  nothing and the lower then moves the layer down. With two layers of \<^verbatim>\<open>zIndex\<close> 1 and 2,
  raise then lower on the upper one leaves the values 2 and 1.
\<close>

theorem raise_lower_counterexample:
  "distinct (map zIndex (layers twoLayerState))
   \<and> findLayer ''video-2'' twoLayerState = Some secondLayer
   \<and> map zIndex (layers twoLayerState) = [1, 2]
   \<and> map zIndex (layers (moveLayerDown ''video-2'' (moveLayerUp ''video-2'' twoLayerState))) = [2, 1]"
  unfolding raise_top lower_top
  by (simp add: findLayer_def twoLayerState_facts)

end
